theory Spec2Isabelle
  imports Complex_Main "HOL-Library.Monad_Syntax"
begin

section \<open>Python values used by the scene analyzer\<close>

text \<open>
  A Python \<open>str\<close> is modelled as a \<open>string\<close>: a list of characters, each a code point
  below 256. Exceptions are values: a function that can raise returns \<open>error + 'a\<close>,
  with \<open>Inl\<close> carrying the exception.
\<close>

datatype error =
  ValueError string
  | IndexError
  | AttributeError
  | ServiceError string

abbreviation NL :: char where
  "NL \<equiv> CHR 0x0A"

text \<open>
  \<open>str.strip()\<close> removes the characters for which \<open>str.isspace\<close> holds. Below 256
  these are the code points 9 to 13, 28 to 32, 133 and 160.
\<close>

definition is_space :: "char \<Rightarrow> bool" where
  "is_space c = (of_char c \<in> set [9, 10, 11, 12, 13, 28, 29, 30, 31, 32, 133, 160 :: nat])"

definition py_strip :: "string \<Rightarrow> string" where
  "py_strip s = rev (dropWhile is_space (rev (dropWhile is_space s)))"

definition startswith :: "string \<Rightarrow> string \<Rightarrow> bool" where
  "startswith s p = (take (length p) s = p)"

definition endswith :: "string \<Rightarrow> string \<Rightarrow> bool" where
  "endswith s p = (length p \<le> length s \<and> drop (length s - length p) s = p)"

text \<open>
  \<open>s.split(sep)\<close> cuts \<open>s\<close> at the occurrences of \<open>sep\<close>, found from the left and not
  overlapping. The program passes the constant separators \<open>'\n'\<close>, \<open>'\n\n'\<close> and
  \<open>','\<close>; an empty separator (where Python raises) never occurs.
\<close>

function py_split :: "string \<Rightarrow> string \<Rightarrow> string list" where
  "py_split sep [] = [[]]"
| "py_split sep (c # cs) =
     (if sep \<noteq> [] \<and> startswith (c # cs) sep
      then [] # py_split sep (drop (length sep) (c # cs))
      else (case py_split sep cs of
              [] \<Rightarrow> [[c]]
            | p # ps \<Rightarrow> (c # p) # ps))"
  by pat_completeness auto
termination
  by (relation "measure (\<lambda>(sep, s). length s)") auto

text \<open>\<open>s.replace(old, new)\<close>, again for a non-empty constant \<open>old\<close>.\<close>

function py_replace :: "string \<Rightarrow> string \<Rightarrow> string \<Rightarrow> string" where
  "py_replace old new [] = []"
| "py_replace old new (c # cs) =
     (if old \<noteq> [] \<and> startswith (c # cs) old
      then new @ py_replace old new (drop (length old) (c # cs))
      else c # py_replace old new cs)"
  by pat_completeness auto
termination
  by (relation "measure (\<lambda>(old, new, s). length s)") auto

fun py_join :: "string \<Rightarrow> string list \<Rightarrow> string" where
  "py_join sep [] = []"
| "py_join sep [x] = x"
| "py_join sep (x # y # ys) = x @ sep @ py_join sep (y # ys)"

text \<open>\<open>xs[i]\<close>: a negative index counts from the end, an index out of range raises.\<close>

definition py_index :: "'a list \<Rightarrow> int \<Rightarrow> error + 'a" where
  "py_index xs i =
     (if 0 \<le> i \<and> i < int (length xs) then Inr (xs ! nat i)
      else if i < 0 \<and> - int (length xs) \<le> i then Inr (xs ! nat (int (length xs) + i))
      else Inl IndexError)"

subsection \<open>Decimal digits, \<open>int(str)\<close>\<close>

definition is_digit :: "char \<Rightarrow> bool" where
  "is_digit c = (c \<in> set ''0123456789'')"

definition digit_val :: "char \<Rightarrow> nat" where
  "digit_val c = of_char c - 48"

definition nat_of_digits :: "string \<Rightarrow> nat" where
  "nat_of_digits ds = foldl (\<lambda>n c. 10 * n + digit_val c) 0 ds"

text \<open>
  \<open>int(s)\<close> on a string: surrounding whitespace is ignored, one sign is allowed, and
  the digits may be grouped by single underscores. Anything else raises \<open>ValueError\<close>.
  The whitespace \<open>int\<close> ignores is not quite that of \<open>str.strip\<close>: the code points 28
  to 31 are refused. (The interpreter's configurable limit on the number of digits is
  not modelled.)
\<close>

definition is_int_space :: "char \<Rightarrow> bool" where
  "is_int_space c = (of_char c \<in> set [9, 10, 11, 12, 13, 32, 133, 160 :: nat])"

fun digit_groups :: "string \<Rightarrow> bool" where
  "digit_groups [] = False"
| "digit_groups [c] = is_digit c"
| "digit_groups (c # d # ds) =
     (is_digit c \<and> (if d = CHR ''_'' then digit_groups ds else digit_groups (d # ds)))"

definition py_int :: "string \<Rightarrow> error + int" where
  "py_int s =
     (let t = rev (dropWhile is_int_space (rev (dropWhile is_int_space s)));
          neg = startswith t ''-'' \<and> t \<noteq> [];
          body = (if t \<noteq> [] \<and> (hd t = CHR ''-'' \<or> hd t = CHR ''+'') then tl t else t)
      in if digit_groups body
         then (let n = int (nat_of_digits (filter is_digit body)) in Inr (if neg then - n else n))
         else Inl (ValueError ''invalid literal for int() with base 10''))"

subsection \<open>\<open>datetime.strptime(s, '%H:%M:%S,%f')\<close>\<close>

text \<open>
  The format is compiled to the regular expression
  \<open>(2[0-3]|[0-1]\d|\d):([0-5]\d|\d):(6[0-1]|[0-5]\d|\d),(\d{1,6})\<close>, matched at the start
  of the string. Each of the first three fields is followed by a character that is no
  digit, so a field is the whole run of digits in front of it: one digit, or two digits
  within the field's range. The fraction takes up to six digits; text left after it
  raises, and so does a second above 59 when the \<open>datetime\<close> is built. The result is
  modelled as the number of microseconds since midnight (the date is always 1900-01-01).
\<close>

definition read_field :: "nat \<Rightarrow> string \<Rightarrow> (nat \<times> string) option" where
  "read_field mx s =
     (let ds = takeWhile is_digit s
      in if length ds = 1 \<or> (length ds = 2 \<and> nat_of_digits ds \<le> mx)
         then Some (nat_of_digits ds, dropWhile is_digit s)
         else None)"

definition expect :: "char \<Rightarrow> string \<Rightarrow> string option" where
  "expect c s = (case s of [] \<Rightarrow> None | x # r \<Rightarrow> if x = c then Some r else None)"

definition match_time_format :: "string \<Rightarrow> (nat \<times> nat \<times> nat \<times> string \<times> string) option" where
  "match_time_format s =
     do {
       (h, r1) \<leftarrow> read_field 23 s;
       r2 \<leftarrow> expect CHR '':'' r1;
       (m, r3) \<leftarrow> read_field 59 r2;
       r4 \<leftarrow> expect CHR '':'' r3;
       (sec, r5) \<leftarrow> read_field 61 r4;
       r6 \<leftarrow> expect CHR '','' r5;
       let f = take 6 (takeWhile is_digit r6);
       if f = [] then None else Some (h, m, sec, f, drop (length f) r6)
     }"

definition strptime :: "string \<Rightarrow> error + int" where
  "strptime s =
     (case match_time_format s of
        None \<Rightarrow> Inl (ValueError ''time data does not match format'')
      | Some (h, m, sec, f, rest) \<Rightarrow>
          if rest \<noteq> [] then Inl (ValueError ''unconverted data remains'')
          else if 59 < sec then Inl (ValueError ''second must be in 0..59'')
          else Inr (int (((h * 60 + m) * 60 + sec) * 1000000
                         + nat_of_digits (f @ replicate (6 - length f) CHR ''0''))))"

subsection \<open>\<open>timedelta.total_seconds()\<close>\<close>

text \<open>
  \<open>total_seconds()\<close> divides the number of microseconds by \<open>10**6\<close> with the true
  division of integers, whose result is the float nearest to the quotient, ties going
  to the even significand. A float is modelled by the rational it denotes.
  \<open>true_divide a b\<close>, for a positive \<open>b\<close>, is that nearest float with a significand of
  53 bits: \<open>l\<close> is the binary exponent of the quotient, found from the bit lengths of
  \<open>a\<close> and \<open>b\<close>, and \<open>m\<close> the quotient's significand, rounded. The exponent range of the
  format is not modelled: a difference of two times of day is below 86400 seconds and,
  when not zero, at least a microsecond.
\<close>

fun bit_length :: "nat \<Rightarrow> nat" where
  "bit_length n = (if n = 0 then 0 else Suc (bit_length (n div 2)))"

declare bit_length.simps [simp del]

definition round_div :: "nat \<Rightarrow> nat \<Rightarrow> nat" where
  "round_div p q =
     (let f = p div q; r = p mod q
      in if 2 * r < q then f
         else if q < 2 * r then f + 1
         else if even f then f else f + 1)"

definition true_divide :: "int \<Rightarrow> nat \<Rightarrow> rat" where
  "true_divide a b =
     (if a = 0 then 0
      else
        (let n = nat \<bar>a\<bar>;
             k = int (bit_length n) - int (bit_length b);
             l = (if b * 2 ^ nat k \<le> n * 2 ^ nat (- k) then k else k - 1);
             e = l - 52;
             m = round_div (n * 2 ^ nat (- e)) (b * 2 ^ nat e)
         in of_int (sgn a) * (of_nat m * 2 ^ nat e / 2 ^ nat (- e))))"

definition total_seconds :: "int \<Rightarrow> rat" where
  "total_seconds d = true_divide d 1000000"

section \<open>Subtitles and scenes\<close>

text \<open>A subtitle entry is the dictionary \<open>{'index', 'start', 'end', 'text'}\<close>.\<close>

record utterance =
  u_index :: int
  u_start :: string
  u_end :: string
  u_text :: string

subsection \<open>\<open>group_into_scenes\<close>\<close>

text \<open>
  One pass through the body of \<open>for i, subtitle in enumerate(subtitles)\<close>, on the
  pair of lists \<open>(scenes, current_scene)\<close> that the loop appends to. The threshold
  \<open>thr\<close> is the rational that \<open>min_pause_seconds\<close>, an integer or a finite float,
  denotes; Python compares the pause, a float, with it by value.
\<close>

definition scene_step ::
  "rat \<Rightarrow> utterance list \<Rightarrow> nat \<Rightarrow> utterance \<Rightarrow> utterance list list \<times> utterance list
     \<Rightarrow> error + utterance list list \<times> utterance list" where
  "scene_step thr subs i sub st =
     (case st of (scenes, cur) \<Rightarrow>
        if cur = [] then Inr (scenes, cur @ [sub])
        else
          (case py_index subs (int i - 1) of
             Inl e \<Rightarrow> Inl e
           | Inr prev \<Rightarrow>
               (case strptime (u_end prev) of
                  Inl e \<Rightarrow> Inl e
                | Inr prev_end \<Rightarrow>
                    (case strptime (u_start sub) of
                       Inl e \<Rightarrow> Inl e
                     | Inr current_start \<Rightarrow>
                         (if thr \<le> total_seconds (current_start - prev_end)
                          then (if cur \<noteq> [] then Inr (scenes @ [cur], [sub])
                                else Inr (scenes, cur @ [sub]))
                          else Inr (scenes, cur @ [sub]))))))"

text \<open>The loop itself: \<open>rest\<close> holds the entries still to visit, \<open>i\<close> the index of its head.\<close>

fun scenes_loop ::
  "rat \<Rightarrow> utterance list \<Rightarrow> nat \<Rightarrow> utterance list \<Rightarrow> utterance list list \<times> utterance list
     \<Rightarrow> error + utterance list list \<times> utterance list" where
  "scenes_loop thr subs i [] st = Inr st"
| "scenes_loop thr subs i (sub # rest) st =
     (case scene_step thr subs i sub st of
        Inl e \<Rightarrow> Inl e
      | Inr st' \<Rightarrow> scenes_loop thr subs (Suc i) rest st')"

text \<open>After the loop the scene still open, if any, is added.\<close>

definition group_into_scenes :: "utterance list \<Rightarrow> rat \<Rightarrow> error + utterance list list" where
  "group_into_scenes subtitles min_pause_seconds =
     (case scenes_loop min_pause_seconds subtitles 0 subtitles ([], []) of
        Inl e \<Rightarrow> Inl e
      | Inr (scenes, cur) \<Rightarrow> Inr (if cur \<noteq> [] then scenes @ [cur] else scenes))"

subsection \<open>\<open>parse_srt\<close>\<close>

text \<open>
  \<open>re.findall(r'(\d{2}:\d{2}:\d{2},\d{3})', line)\<close>: the pattern has a fixed length of
  twelve characters, so the scan takes a match where one starts and continues after
  it, and moves one character on otherwise.
\<close>

fun matches_pattern :: "(char \<Rightarrow> bool) list \<Rightarrow> string \<Rightarrow> bool" where
  "matches_pattern [] s = True"
| "matches_pattern (p # ps) [] = False"
| "matches_pattern (p # ps) (c # cs) = (p c \<and> matches_pattern ps cs)"

definition timestamp_pattern :: "(char \<Rightarrow> bool) list" where
  "timestamp_pattern =
     [is_digit, is_digit, (\<lambda>c. c = CHR '':''),
      is_digit, is_digit, (\<lambda>c. c = CHR '':''),
      is_digit, is_digit, (\<lambda>c. c = CHR '',''),
      is_digit, is_digit, is_digit]"

function find_timestamps :: "string \<Rightarrow> string list" where
  "find_timestamps [] = []"
| "find_timestamps (c # cs) =
     (if matches_pattern timestamp_pattern (c # cs)
      then take 12 (c # cs) # find_timestamps (drop 12 (c # cs))
      else find_timestamps cs)"
  by pat_completeness auto
termination
  by (relation "measure length") auto

text \<open>
  One block of the file: \<open>None\<close> when the block is skipped by a \<open>continue\<close>, the
  entry otherwise. \<open>int(lines[0])\<close> is the only call that can raise.
\<close>

definition parse_block :: "string \<Rightarrow> error + utterance option" where
  "parse_block block =
     (let lines = py_split [NL] (py_strip block)
      in if length lines < 3 then Inr None
         else
           (let times = find_timestamps (lines ! 1)
            in if length times \<noteq> 2 then Inr None
               else
                 (case py_int (lines ! 0) of
                    Inl e \<Rightarrow> Inl e
                  | Inr n \<Rightarrow>
                      Inr (Some \<lparr>u_index = n, u_start = times ! 0, u_end = times ! 1,
                                 u_text = py_join '' '' (drop 2 lines)\<rparr>))))"

fun parse_blocks :: "string list \<Rightarrow> utterance list \<Rightarrow> error + utterance list" where
  "parse_blocks [] subtitles = Inr subtitles"
| "parse_blocks (block # blocks) subtitles =
     (case parse_block block of
        Inl e \<Rightarrow> Inl e
      | Inr None \<Rightarrow> parse_blocks blocks subtitles
      | Inr (Some u) \<Rightarrow> parse_blocks blocks (subtitles @ [u]))"

text \<open>\<open>parse_srt\<close> on the text read from the file.\<close>

definition parse_srt :: "string \<Rightarrow> error + utterance list" where
  "parse_srt content = parse_blocks (py_split [NL, NL] (py_strip content)) []"

section \<open>The reply of the language model\<close>

record analysis =
  summary :: string
  characters :: "string list"
  mood :: string
  cultural_refs :: "string list"

definition initial_analysis :: analysis where
  "initial_analysis = \<lparr>summary = [], characters = [], mood = [], cultural_refs = []\<rparr>"

definition sentinel :: analysis where
  "sentinel = \<lparr>summary = ''Analysis parsing failed'', characters = [],
                mood = ''unknown'', cultural_refs = []\<rparr>"

text \<open>\<open>[x.strip() for x in text.split(',') if x.strip()]\<close>\<close>

definition parse_list_items :: "string \<Rightarrow> string list" where
  "parse_list_items t = filter (\<lambda>x. x \<noteq> []) (map py_strip (py_split '','' t))"

text \<open>\<open>if t.startswith('[') and t.endswith(']'): t = t[1:-1]\<close>\<close>

definition strip_brackets :: "string \<Rightarrow> string" where
  "strip_brackets t = (if startswith t ''['' \<and> endswith t '']'' then butlast (tl t) else t)"

definition field_value :: "string \<Rightarrow> string \<Rightarrow> string" where
  "field_value label line = py_strip (py_replace label [] line)"

text \<open>The body of \<open>for line in lines\<close>, on the dictionary \<open>analysis\<close>.\<close>

definition parse_line :: "analysis \<Rightarrow> string \<Rightarrow> analysis" where
  "parse_line a raw =
     (let line = py_strip raw
      in if startswith line ''Summary:''
         then a\<lparr>summary := field_value ''Summary:'' line\<rparr>
         else if startswith line ''Characters:''
         then (let chars_text = strip_brackets (field_value ''Characters:'' line)
               in if chars_text \<noteq> [] then a\<lparr>characters := parse_list_items chars_text\<rparr>
                  else a)
         else if startswith line ''Mood:''
         then a\<lparr>mood := field_value ''Mood:'' line\<rparr>
         else if startswith line ''Cultural References:''
         then (let refs_text = strip_brackets (field_value ''Cultural References:'' line)
               in if refs_text \<noteq> [] \<and> refs_text \<noteq> ''[]''
                  then a\<lparr>cultural_refs := parse_list_items refs_text\<rparr>
                  else a)
         else a)"

text \<open>
  The \<open>try\<close> block. The argument is the \<open>text\<close> of the service's response, which is
  \<open>None\<close> when the response holds no text; \<open>None.strip()\<close> raises \<open>AttributeError\<close>.
\<close>

definition parse_body :: "string option \<Rightarrow> error + analysis" where
  "parse_body response_text =
     (case response_text of
        None \<Rightarrow> Inl AttributeError
      | Some t \<Rightarrow> Inr (foldl parse_line initial_analysis (py_split [NL] (py_strip t))))"

text \<open>\<open>except Exception\<close>: any error of the body gives the fallback dictionary.\<close>

definition parse_llm_response :: "string option \<Rightarrow> analysis" where
  "parse_llm_response response_text =
     (case parse_body response_text of Inl e \<Rightarrow> sentinel | Inr a \<Rightarrow> a)"

section \<open>The background context\<close>

text \<open>
  The section files of the context directory: a file is absent, cannot be read (a
  warning is printed and the section left out), or has a content.
\<close>

datatype file_state = Missing | Unreadable | Content string

definition section_order :: "string list" where
  "section_order =
     [''Introduction.txt'', ''Plot.txt'', ''Cast.txt'', ''Production.txt'',
      ''Reception.txt'', ''Legacy.txt'', ''Documentaries.txt'']"

text \<open>\<open>str.upper()\<close>, applied to the section names only, which are ASCII.\<close>

definition upper_char :: "char \<Rightarrow> char" where
  "upper_char c =
     (if 97 \<le> (of_char c :: nat) \<and> (of_char c :: nat) \<le> 122
      then char_of ((of_char c :: nat) - 32) else c)"

definition load_section :: "(string \<Rightarrow> file_state) \<Rightarrow> string \<Rightarrow> string option" where
  "load_section files section_file =
     (case files section_file of
        Missing \<Rightarrow> None
      | Unreadable \<Rightarrow> None
      | Content c \<Rightarrow>
          (let content = py_strip c
           in if content \<noteq> []
              then Some (''=== ''
                         @ map upper_char
                             (py_replace ''_'' '' '' (py_replace ''.txt'' [] section_file))
                         @ '' ==='' @ [NL] @ content)
              else None))"

definition load_movie_context :: "(string \<Rightarrow> file_state) \<Rightarrow> string" where
  "load_movie_context files =
     py_join [NL, NL] (List.map_filter (load_section files) section_order)"

definition movie_intro :: string where
  "movie_intro = ''This movie, Plan 9 from Outer Space, is a 1957 American independent science fiction-horror film. The film's storyline concerns extraterrestrials who seek to stop humanity from creating a doomsday weapon that could destroy the universe.[8] The aliens implement 'Plan 9', a scheme to resurrect the Earth's dead. By causing chaos, the aliens hope the crisis will force humanity to listen to them; otherwise, the aliens will destroy mankind with armies of the undead.''"

definition influence_intro :: string where
  "influence_intro = ''and his film were posthumously given two Golden Turkey Awards for Worst Director Ever and Worst Film Ever. It has since been called 'the epitome of so-bad-it's-good cinema'[10] and gained a large cult following.''"

definition main_character_intro :: string where
  "main_character_intro = ''Pilot Jeff Trent, Wife Paula Trent, Lieutenant John Harper, Colonel Tom Edwards, The narrator, Patrolman Larry, Patrolman Kelton, Inspector Daniel Clay, and the alien invaders.''"

text \<open>
  The module-level \<open>system_instruction\<close>. In the f-string
  \<open>f"{movie_intro}\ninfluence_intro\n{main_character_intro}"\<close> the middle name stands
  outside braces, so the text holds the word itself.
\<close>

definition system_instruction :: "(string \<Rightarrow> file_state) \<Rightarrow> string" where
  "system_instruction files =
     (let loaded = load_movie_context files
      in if loaded = []
         then movie_intro @ [NL] @ ''influence_intro'' @ [NL] @ main_character_intro
         else loaded)"

section \<open>Annotating a scene\<close>

text \<open>
  The remote service is a parameter: creating the cache (from the key, the model and
  the system instruction) gives the cache's name, generating (from the key, the model,
  the prompt and the cache's name) gives the \<open>text\<close> of the response; either can fail.
\<close>

record client =
  caches_create :: "string \<Rightarrow> string \<Rightarrow> string \<Rightarrow> error + string"
  generate_content :: "string \<Rightarrow> string \<Rightarrow> string \<Rightarrow> string \<Rightarrow> error + string option"

definition prompt_for :: "string \<Rightarrow> string" where
  "prompt_for scene_text =
     (  [NL]
       @ ''        Analyze this movie scene transcription:''
       @ [NL]
       @ [NL]
       @ ''        ''
       @ [CHR 0x22]
       @ scene_text
       @ [CHR 0x22]
       @ [NL]
       @ [NL]
       @ ''        Provide a structured analysis with:''
       @ [NL]
       @ ''        1. A one-sentence summary''
       @ [NL]
       @ ''        2. Characters in the scene (list)''
       @ [NL]
       @ ''        3. Overall mood/emotion, up to 3 words''
       @ [NL]
       @ ''        4. Up to 3 cultural references (list, can be empty)''
       @ [NL]
       @ [NL]
       @ ''        Please format your response as follows:''
       @ [NL]
       @ ''        Summary: [your one-sentence summary]''
       @ [NL]
       @ ''        Characters: [character1, character2, ...]''
       @ [NL]
       @ ''        Mood: [mood/emotion]''
       @ [NL]
       @ ''        Cultural References: [reference1, reference2, reference3] (or [] if none)''
       @ [NL]
       @ ''        '')"

text \<open>
  \<open>env_key\<close> is \<open>os.environ.get("GEMINI_API_KEY")\<close>: \<open>None\<close> when the variable is not
  set. \<open>if not api_key\<close> also refuses the empty string.
\<close>

definition analyze_scene_with_llm ::
  "client \<Rightarrow> string \<Rightarrow> string option \<Rightarrow> string \<Rightarrow> string \<Rightarrow> error + analysis" where
  "analyze_scene_with_llm cl sys_instr env_key scene_text model =
     (if startswith model ''gemini''
      then
        (case env_key of
           None \<Rightarrow> Inl (ValueError ''GEMINI_API_KEY not found in environment variables'')
         | Some api_key \<Rightarrow>
             if api_key = []
             then Inl (ValueError ''GEMINI_API_KEY not found in environment variables'')
             else
               (case caches_create cl api_key model sys_instr of
                  Inl e \<Rightarrow> Inl e
                | Inr cache_name \<Rightarrow>
                    (case generate_content cl api_key model (prompt_for scene_text) cache_name of
                       Inl e \<Rightarrow> Inl e
                     | Inr response_text \<Rightarrow> Inr (parse_llm_response response_text))))
      else Inl (ValueError (''Unsupported model: '' @ model)))"

section \<open>The run\<close>

text \<open>One element of the list that \<open>main\<close> serializes.\<close>

record scene_result =
  res_start :: string
  res_end :: string
  res_transcript :: string
  res_summary :: string
  res_characters :: "string list"
  res_mood :: string
  res_cultural_refs :: "string list"

text \<open>The body of \<open>for scene in scenes\<close>: \<open>scene[0]\<close> and \<open>scene[-1]\<close> raise on an empty scene.\<close>

definition analyze_scene ::
  "client \<Rightarrow> string \<Rightarrow> string option \<Rightarrow> string \<Rightarrow> utterance list \<Rightarrow> error + scene_result" where
  "analyze_scene cl sys_instr env_key model scene =
     (let scene_text = py_join '' '' (map u_text scene)
      in case py_index scene 0 of
           Inl e \<Rightarrow> Inl e
         | Inr first \<Rightarrow>
             (case py_index scene (- 1) of
                Inl e \<Rightarrow> Inl e
              | Inr final \<Rightarrow>
                  (case analyze_scene_with_llm cl sys_instr env_key scene_text model of
                     Inl e \<Rightarrow> Inl e
                   | Inr a \<Rightarrow>
                       Inr \<lparr>res_start = u_start first, res_end = u_end final,
                            res_transcript = scene_text, res_summary = summary a,
                            res_characters = characters a, res_mood = mood a,
                            res_cultural_refs = cultural_refs a\<rparr>)))"

fun analyze_scenes ::
  "client \<Rightarrow> string \<Rightarrow> string option \<Rightarrow> string \<Rightarrow> utterance list list \<Rightarrow> scene_result list
     \<Rightarrow> error + scene_result list" where
  "analyze_scenes cl sys_instr env_key model [] results = Inr results"
| "analyze_scenes cl sys_instr env_key model (scene # scenes) results =
     (case analyze_scene cl sys_instr env_key model scene of
        Inl e \<Rightarrow> Inl e
      | Inr r \<Rightarrow> analyze_scenes cl sys_instr env_key model scenes (results @ [r]))"

text \<open>
  \<open>main\<close> up to the list \<open>results\<close> handed to \<open>json.dumps\<close>, on the text of the subtitle
  file. No error is caught: the first one ends the run.
\<close>

definition main_results ::
  "client \<Rightarrow> string \<Rightarrow> string option \<Rightarrow> string \<Rightarrow> string \<Rightarrow> error + scene_result list" where
  "main_results cl sys_instr env_key model content =
     (case parse_srt content of
        Inl e \<Rightarrow> Inl e
      | Inr subtitles \<Rightarrow>
          (case group_into_scenes subtitles 4 of
             Inl e \<Rightarrow> Inl e
           | Inr scenes \<Rightarrow> analyze_scenes cl sys_instr env_key model scenes []))"

section \<open>Vocabulary of the properties\<close>

text \<open>
  \<open>scene_of scenes k\<close> is the position, in the list of scenes, of the scene that holds
  the \<open>k\<close>-th entry of their concatenation.
\<close>

fun scene_of :: "'a list list \<Rightarrow> nat \<Rightarrow> nat" where
  "scene_of [] k = 0"
| "scene_of (s # ss) k = (if k < length s then 0 else Suc (scene_of ss (k - length s)))"

text \<open>
  The pause the loop computes between an entry and the next one, in seconds; an error
  when \<open>strptime\<close> refuses the end of the first or the start of the second.
\<close>

definition pause_between :: "utterance \<Rightarrow> utterance \<Rightarrow> error + rat" where
  "pause_between prev sub =
     (case strptime (u_end prev) of
        Inl e \<Rightarrow> Inl e
      | Inr prev_end \<Rightarrow>
          (case strptime (u_start sub) of
             Inl e \<Rightarrow> Inl e
           | Inr current_start \<Rightarrow> Inr (total_seconds (current_start - prev_end))))"

text \<open>
  The invariant of the loop: among the first \<open>n\<close> entries, each one lies in the next
  scene after its predecessor's when the pause between them reaches the threshold, and
  in the same scene otherwise.
\<close>

definition split_ok :: "rat \<Rightarrow> utterance list \<Rightarrow> utterance list list \<Rightarrow> nat \<Rightarrow> bool" where
  "split_ok thr subs tot n =
     list_all
       (\<lambda>k. case pause_between (subs ! k) (subs ! Suc k) of
               Inl e \<Rightarrow> False
             | Inr p \<Rightarrow>
                 scene_of tot (Suc k)
                   = (if thr \<le> p then Suc (scene_of tot k) else scene_of tot k))
       [0 ..< n - 1]"

definition seg_inv :: "rat \<Rightarrow> utterance list \<Rightarrow> nat \<Rightarrow> utterance list list \<times> utterance list \<Rightarrow> bool" where
  "seg_inv thr subs i st =
     (case st of (scenes, cur) \<Rightarrow>
        (i = 0 \<and> scenes = [] \<and> cur = [])
        \<or> (0 < i \<and> cur \<noteq> [] \<and> length (concat scenes) + length cur = i
            \<and> split_ok thr subs (scenes @ [cur]) i))"

text \<open>A timestamp that \<open>strptime\<close> accepts.\<close>

definition parsable :: "string \<Rightarrow> bool" where
  "parsable s = (case strptime s of Inl e \<Rightarrow> False | Inr t \<Rightarrow> True)"

text \<open>A string that is one match of the pattern \<open>parse_srt\<close> looks for.\<close>

definition is_timestamp :: "string \<Rightarrow> bool" where
  "is_timestamp s = (length s = 12 \<and> matches_pattern timestamp_pattern s)"

text \<open>A line of the reply that starts, once trimmed, with one of the four labels.\<close>

definition recognized :: "string \<Rightarrow> bool" where
  "recognized raw =
     (let line = py_strip raw
      in startswith line ''Summary:'' \<or> startswith line ''Characters:''
         \<or> startswith line ''Mood:'' \<or> startswith line ''Cultural References:'')"

text \<open>A line of the reply that starts, once trimmed, with the given label.\<close>

definition has_label :: "string \<Rightarrow> string \<Rightarrow> bool" where
  "has_label label raw = startswith (py_strip raw) label"

text \<open>A list whose strings are non-empty and equal to their own trimmed form.\<close>

definition trimmed_items :: "string list \<Rightarrow> bool" where
  "trimmed_items xs = list_all (\<lambda>x. x \<noteq> [] \<and> py_strip x = x) xs"

text \<open>No credential: the variable is not set, or set to the empty string.\<close>

definition no_credential :: "string option \<Rightarrow> bool" where
  "no_credential env_key = (case env_key of None \<Rightarrow> True | Some k \<Rightarrow> k = [])"

text \<open>A configuration on which the annotator refuses to dispatch.\<close>

definition config_error :: "string option \<Rightarrow> string \<Rightarrow> bool" where
  "config_error env_key model =
     (if startswith model ''gemini'' then no_credential env_key else True)"

text \<open>
  What an element \<open>r\<close> of the result list owes to its scene: the scene is not empty,
  \<open>start\<close>, \<open>end\<close> and \<open>transcript\<close> are derived from its entries, and the four other
  fields are those of the annotation returned for the transcript.
\<close>

definition result_of ::
  "client \<Rightarrow> string \<Rightarrow> string option \<Rightarrow> string \<Rightarrow> utterance list \<Rightarrow> scene_result \<Rightarrow> bool" where
  "result_of cl sys_instr env_key model scene r =
     (scene \<noteq> []
      \<and> res_start r = u_start (hd scene)
      \<and> res_end r = u_end (last scene)
      \<and> res_transcript r = py_join '' '' (map u_text scene)
      \<and> (case analyze_scene_with_llm cl sys_instr env_key (py_join '' '' (map u_text scene)) model of
            Inl e \<Rightarrow> False
          | Inr a \<Rightarrow> res_summary r = summary a \<and> res_characters r = characters a
                     \<and> res_mood r = mood a \<and> res_cultural_refs r = cultural_refs a))"

text \<open>
  The timestamps the loop reads: the end of each entry that has a successor and the
  start of each entry that has a predecessor. All of them are accepted by \<open>strptime\<close>.
\<close>

definition pairs_parsable :: "utterance list \<Rightarrow> bool" where
  "pairs_parsable subs =
     list_all (\<lambda>k. parsable (u_end (subs ! k)) \<and> parsable (u_start (subs ! Suc k)))
       [0 ..< length subs - 1]"

text \<open>The remote service answers every call.\<close>

definition service_answers :: "client \<Rightarrow> bool" where
  "service_answers cl =
     ((\<forall>k m s. \<exists>c. caches_create cl k m s = Inr c)
      \<and> (\<forall>k m p c. \<exists>t. generate_content cl k m p c = Inr t))"

section \<open>The scene segmenter\<close>

subsection \<open>The scenes partition the input\<close>

lemma py_index_pred:
  assumes "0 < i" "i < length xs"
  shows "py_index xs (int i - 1) = Inr (xs ! (i - 1))"
proof -
  have "nat (int i - 1) = i - 1" by simp
  with assms show ?thesis by (simp add: py_index_def)
qed

lemma replicate_numeral_unfold: "replicate (numeral k) x = x # replicate (pred_numeral k) x"
  by (simp add: numeral_eq_Suc)

lemmas strptime_eval = strptime_def match_time_format_def read_field_def expect_def
  is_digit_def nat_of_digits_def digit_val_def replicate_numeral_unfold

lemma scene_step_concat:
  assumes "scene_step thr subs i sub (scenes, cur) = Inr (scenes', cur')"
  shows "concat scenes' @ cur' = concat scenes @ cur @ [sub]"
    and "cur' \<noteq> []"
    and "list_all (\<lambda>s. s \<noteq> []) scenes \<Longrightarrow> list_all (\<lambda>s. s \<noteq> []) scenes'"
  using assms
  by (auto simp: scene_step_def split: sum.splits if_splits)

lemma scenes_loop_concat:
  assumes "scenes_loop thr subs i rest (scenes, cur) = Inr (scenes', cur')"
  shows "concat scenes' @ cur' = concat scenes @ cur @ rest
         \<and> (list_all (\<lambda>s. s \<noteq> []) scenes \<longrightarrow> list_all (\<lambda>s. s \<noteq> []) scenes')"
  using assms
proof (induction rest arbitrary: i scenes cur)
  case Nil
  then show ?case by simp
next
  case (Cons sub rest)
  from Cons.prems obtain sc1 c1 where
    st: "scene_step thr subs i sub (scenes, cur) = Inr (sc1, c1)"
    and lp: "scenes_loop thr subs (Suc i) rest (sc1, c1) = Inr (scenes', cur')"
    by (auto split: sum.splits)
  from Cons.IH[OF lp] scene_step_concat[OF st] show ?case by simp
qed

lemma group_into_scenes_concat:
  assumes "group_into_scenes subs thr = Inr scenes"
  shows "concat scenes = subs \<and> list_all (\<lambda>s. s \<noteq> []) scenes"
proof -
  from assms obtain sc cur where
    lp: "scenes_loop thr subs 0 subs ([], []) = Inr (sc, cur)"
    and res: "scenes = (if cur \<noteq> [] then sc @ [cur] else sc)"
    by (auto simp: group_into_scenes_def split: sum.splits)
  from scenes_loop_concat[OF lp] res show ?thesis by auto
qed

lemma py_index_pred_any:
  assumes "i < length xs"
  shows "\<exists>x \<in> set xs. py_index xs (int i - 1) = Inr x"
proof (cases "i = 0")
  case True
  with assms have "xs \<noteq> []" by auto
  then have mem: "last xs \<in> set xs" by simp
  have "nat (int (length xs) - 1) = length xs - 1" by simp
  moreover from assms have "Suc 0 \<le> length xs" by simp
  ultimately have "py_index xs (int i - 1) = Inr (xs ! (length xs - 1))"
    using True by (simp add: py_index_def)
  with mem show ?thesis using \<open>xs \<noteq> []\<close> by (simp add: last_conv_nth)
next
  case False
  with assms have "py_index xs (int i - 1) = Inr (xs ! (i - 1))"
    by (simp add: py_index_pred)
  moreover from assms have "xs ! (i - 1) \<in> set xs" by simp
  ultimately show ?thesis by blast
qed

lemma scene_step_total:
  assumes "list_all (\<lambda>u. parsable (u_end u)) subs" "parsable (u_start sub)" "i < length subs"
  shows "\<exists>st'. scene_step thr subs i sub st = Inr st'"
proof -
  from py_index_pred_any[OF assms(3)] obtain x where
    x: "x \<in> set subs" "py_index subs (int i - 1) = Inr x" by blast
  with assms(1) have "parsable (u_end x)" by (simp add: list_all_iff)
  then obtain pe where pe: "strptime (u_end x) = Inr pe"
    by (auto simp: parsable_def split: sum.splits)
  from assms(2) obtain cs where cs: "strptime (u_start sub) = Inr cs"
    by (auto simp: parsable_def split: sum.splits)
  show ?thesis
    by (cases st) (simp add: scene_step_def x pe cs)
qed

lemma scenes_loop_total:
  assumes "list_all (\<lambda>u. parsable (u_end u)) subs"
    and "list_all (\<lambda>u. parsable (u_start u)) rest"
    and "i + length rest \<le> length subs"
  shows "\<exists>st'. scenes_loop thr subs i rest st = Inr st'"
  using assms(2,3)
proof (induction rest arbitrary: i st)
  case Nil
  show ?case by simp
next
  case (Cons sub rest)
  from Cons.prems have "parsable (u_start sub)" "i < length subs" by simp_all
  from scene_step_total[OF assms(1) this] obtain st1 where
    "scene_step thr subs i sub st = Inr st1" by blast
  moreover from Cons.prems have "\<exists>st'. scenes_loop thr subs (Suc i) rest st1 = Inr st'"
    by (intro Cons.IH) simp_all
  ultimately show ?case by simp
qed

lemma group_into_scenes_total:
  assumes "list_all (\<lambda>u. parsable (u_start u) \<and> parsable (u_end u)) subs"
  shows "\<exists>scenes. group_into_scenes subs thr = Inr scenes"
proof -
  from assms have "list_all (\<lambda>u. parsable (u_end u)) subs" "list_all (\<lambda>u. parsable (u_start u)) subs"
    by (simp_all add: list_all_iff)
  from scenes_loop_total[OF this, of 0 thr "([], [])"] obtain st' where
    "scenes_loop thr subs 0 subs ([], []) = Inr st'" by auto
  then show ?thesis by (cases st') (simp add: group_into_scenes_def)
qed

text \<open>
  Claim C1. Whenever \<open>group_into_scenes\<close> returns, the scenes concatenated in order are
  the input list and no scene is empty; the empty list gives no scene and a single
  entry gives one scene holding it; and the function returns whenever \<open>strptime\<close>
  accepts each timestamp (otherwise it can raise \<open>ValueError\<close>).
\<close>

theorem group_into_scenes_partition:
  "(\<forall>scenes. group_into_scenes subs thr = Inr scenes
      \<longrightarrow> concat scenes = subs \<and> list_all (\<lambda>s. s \<noteq> []) scenes)
   \<and> group_into_scenes [] thr = Inr []
   \<and> group_into_scenes [u] thr = Inr [[u]]
   \<and> (list_all (\<lambda>u. parsable (u_start u) \<and> parsable (u_end u)) subs
        \<longrightarrow> (\<exists>scenes. group_into_scenes subs thr = Inr scenes))"
proof (intro conjI allI impI)
  fix scenes assume "group_into_scenes subs thr = Inr scenes"
  from group_into_scenes_concat[OF this]
  show "concat scenes = subs" and "list_all (\<lambda>s. s \<noteq> []) scenes" by simp_all
next
  show "group_into_scenes [] thr = Inr []" by (simp add: group_into_scenes_def)
next
  show "group_into_scenes [u] thr = Inr [[u]]"
    by (simp add: group_into_scenes_def scene_step_def)
next
  assume "list_all (\<lambda>u. parsable (u_start u) \<and> parsable (u_end u)) subs"
  then show "\<exists>scenes. group_into_scenes subs thr = Inr scenes"
    by (rule group_into_scenes_total)
qed

lemma bit_length_0: "bit_length 0 = 0"
  by (simp add: bit_length.simps)

lemma bit_length_1: "bit_length (Suc 0) = Suc 0"
  by (simp add: bit_length.simps[of "Suc 0"] bit_length_0)

lemma bit_length_numeral: "bit_length (numeral k) = Suc (bit_length (numeral k div 2))"
  by (subst bit_length.simps) simp

lemmas float_eval = total_seconds_def true_divide_def round_div_def
  bit_length_0 bit_length_1 bit_length_numeral Let_def

lemmas segment_eval = group_into_scenes_def scene_step_def py_index_def float_eval
  strptime_eval

theorem group_into_scenes_partition_witness:
  "list_all (\<lambda>u. parsable (u_start u) \<and> parsable (u_end u))
     [\<lparr>u_index = 1, u_start = ''00:00:00,000'', u_end = ''00:00:01,000'', u_text = ''a''\<rparr>,
      \<lparr>u_index = 2, u_start = ''00:00:02,000'', u_end = ''00:00:03,000'', u_text = ''b''\<rparr>,
      \<lparr>u_index = 3, u_start = ''00:00:07,000'', u_end = ''00:00:08,000'', u_text = ''c''\<rparr>]
   \<and> group_into_scenes
     [\<lparr>u_index = 1, u_start = ''00:00:00,000'', u_end = ''00:00:01,000'', u_text = ''a''\<rparr>,
      \<lparr>u_index = 2, u_start = ''00:00:02,000'', u_end = ''00:00:03,000'', u_text = ''b''\<rparr>,
      \<lparr>u_index = 3, u_start = ''00:00:07,000'', u_end = ''00:00:08,000'', u_text = ''c''\<rparr>] 4
   = Inr [[\<lparr>u_index = 1, u_start = ''00:00:00,000'', u_end = ''00:00:01,000'', u_text = ''a''\<rparr>,
       \<lparr>u_index = 2, u_start = ''00:00:02,000'', u_end = ''00:00:03,000'', u_text = ''b''\<rparr>],
      [\<lparr>u_index = 3, u_start = ''00:00:07,000'', u_end = ''00:00:08,000'', u_text = ''c''\<rparr>]]
   \<and> concat [[\<lparr>u_index = 1, u_start = ''00:00:00,000'', u_end = ''00:00:01,000'', u_text = ''a''\<rparr>,
       \<lparr>u_index = 2, u_start = ''00:00:02,000'', u_end = ''00:00:03,000'', u_text = ''b''\<rparr>],
      [\<lparr>u_index = 3, u_start = ''00:00:07,000'', u_end = ''00:00:08,000'', u_text = ''c''\<rparr>]]
     = [\<lparr>u_index = 1, u_start = ''00:00:00,000'', u_end = ''00:00:01,000'', u_text = ''a''\<rparr>,
      \<lparr>u_index = 2, u_start = ''00:00:02,000'', u_end = ''00:00:03,000'', u_text = ''b''\<rparr>,
      \<lparr>u_index = 3, u_start = ''00:00:07,000'', u_end = ''00:00:08,000'', u_text = ''c''\<rparr>]
   \<and> list_all (\<lambda>s. s \<noteq> []) [[\<lparr>u_index = 1, u_start = ''00:00:00,000'', u_end = ''00:00:01,000'', u_text = ''a''\<rparr>,
       \<lparr>u_index = 2, u_start = ''00:00:02,000'', u_end = ''00:00:03,000'', u_text = ''b''\<rparr>],
      [\<lparr>u_index = 3, u_start = ''00:00:07,000'', u_end = ''00:00:08,000'', u_text = ''c''\<rparr>]]"
proof -
  have h: "list_all (\<lambda>u. parsable (u_start u) \<and> parsable (u_end u))
     [\<lparr>u_index = 1, u_start = ''00:00:00,000'', u_end = ''00:00:01,000'', u_text = ''a''\<rparr>,
      \<lparr>u_index = 2, u_start = ''00:00:02,000'', u_end = ''00:00:03,000'', u_text = ''b''\<rparr>,
      \<lparr>u_index = 3, u_start = ''00:00:07,000'', u_end = ''00:00:08,000'', u_text = ''c''\<rparr>]"
    by (simp add: parsable_def strptime_eval)
  have e: "group_into_scenes
     [\<lparr>u_index = 1, u_start = ''00:00:00,000'', u_end = ''00:00:01,000'', u_text = ''a''\<rparr>,
      \<lparr>u_index = 2, u_start = ''00:00:02,000'', u_end = ''00:00:03,000'', u_text = ''b''\<rparr>,
      \<lparr>u_index = 3, u_start = ''00:00:07,000'', u_end = ''00:00:08,000'', u_text = ''c''\<rparr>] 4
   = Inr [[\<lparr>u_index = 1, u_start = ''00:00:00,000'', u_end = ''00:00:01,000'', u_text = ''a''\<rparr>,
       \<lparr>u_index = 2, u_start = ''00:00:02,000'', u_end = ''00:00:03,000'', u_text = ''b''\<rparr>],
      [\<lparr>u_index = 3, u_start = ''00:00:07,000'', u_end = ''00:00:08,000'', u_text = ''c''\<rparr>]]"
    by (simp add: segment_eval)
  from group_into_scenes_partition
     [of "[\<lparr>u_index = 1, u_start = ''00:00:00,000'', u_end = ''00:00:01,000'', u_text = ''a''\<rparr>,
      \<lparr>u_index = 2, u_start = ''00:00:02,000'', u_end = ''00:00:03,000'', u_text = ''b''\<rparr>,
      \<lparr>u_index = 3, u_start = ''00:00:07,000'', u_end = ''00:00:08,000'', u_text = ''c''\<rparr>]" 4] h e
  show ?thesis by simp
qed

subsection \<open>Where the pauses fall\<close>

lemma scene_of_append:
  "scene_of (xs @ ys) k =
     (if k < length (concat xs) then scene_of xs k
      else length xs + scene_of ys (k - length (concat xs)))"
  by (induction xs arbitrary: k) auto

lemma split_ok_iff:
  "split_ok thr subs tot n \<longleftrightarrow>
     (\<forall>k. Suc k < n \<longrightarrow>
        (\<exists>p. pause_between (subs ! k) (subs ! Suc k) = Inr p
           \<and> scene_of tot (Suc k) = (if thr \<le> p then Suc (scene_of tot k) else scene_of tot k)))"
proof -
  have range: "(\<forall>k \<in> set [0 ..< n - 1]. P k) \<longleftrightarrow> (\<forall>k. Suc k < n \<longrightarrow> P k)" for P
    by auto
  have pick: "(case x of Inl e \<Rightarrow> False | Inr p \<Rightarrow> Q p) \<longleftrightarrow> (\<exists>p. x = Inr p \<and> Q p)"
    for x :: "error + rat" and Q
    by (cases x) simp_all
  show ?thesis
    unfolding split_ok_def list_all_iff range pick ..
qed

lemma scene_step_first:
  "scene_step thr subs i sub (scenes, []) = Inr (scenes, [sub])"
  by (simp add: scene_step_def)

lemma scene_step_next:
  assumes "0 < i" "i < length subs" "cur \<noteq> []"
    and "scene_step thr subs i (subs ! i) (scenes, cur) = Inr st'"
  shows "\<exists>p. pause_between (subs ! (i - 1)) (subs ! i) = Inr p
           \<and> st' = (if thr \<le> p then (scenes @ [cur], [subs ! i]) else (scenes, cur @ [subs ! i]))"
  using assms(3,4) py_index_pred[OF assms(1,2)]
  by (auto simp: scene_step_def pause_between_def split: sum.splits if_splits)

lemma split_ok_extend:
  assumes ok: "split_ok thr subs (scenes @ [cur]) i"
    and i: "0 < i" and cur: "cur \<noteq> []"
    and len: "length (concat scenes) + length cur = i"
    and p: "pause_between (subs ! (i - 1)) (subs ! i) = Inr p"
  shows "thr \<le> p \<Longrightarrow> split_ok thr subs ((scenes @ [cur]) @ [[x]]) (Suc i)"
    and "\<not> thr \<le> p \<Longrightarrow> split_ok thr subs (scenes @ [cur @ [x]]) (Suc i)"
proof -
  have old1: "scene_of ((scenes @ [cur]) @ [[x]]) k = scene_of (scenes @ [cur]) k" if "k < i" for k
    using that len by (simp only: scene_of_append[of "scenes @ [cur]"]) simp
  have old2: "scene_of (scenes @ [cur @ [x]]) k = scene_of (scenes @ [cur]) k" if "k < i" for k
    using that len by (simp add: scene_of_append) arith
  have last0: "scene_of (scenes @ [cur]) (i - 1) = length scenes"
    using len cur i by (cases cur) (auto simp: scene_of_append)
  have new1: "scene_of ((scenes @ [cur]) @ [[x]]) i = Suc (length scenes)"
    using len by (simp only: scene_of_append[of "scenes @ [cur]"]) simp
  have new2: "scene_of (scenes @ [cur @ [x]]) i = length scenes"
    using len by (simp add: scene_of_append)
  {
    assume thr: "thr \<le> p"
    show "split_ok thr subs ((scenes @ [cur]) @ [[x]]) (Suc i)"
      unfolding split_ok_iff
    proof (intro allI impI)
      fix k assume k: "Suc k < Suc i"
      show "\<exists>p. pause_between (subs ! k) (subs ! Suc k) = Inr p \<and>
             scene_of ((scenes @ [cur]) @ [[x]]) (Suc k) =
             (if thr \<le> p then Suc (scene_of ((scenes @ [cur]) @ [[x]]) k)
              else scene_of ((scenes @ [cur]) @ [[x]]) k)"
      proof (cases "Suc k < i")
        case True
        then have "k < i" by simp
        from ok True obtain q where "pause_between (subs ! k) (subs ! Suc k) = Inr q"
          "scene_of (scenes @ [cur]) (Suc k) =
             (if thr \<le> q then Suc (scene_of (scenes @ [cur]) k) else scene_of (scenes @ [cur]) k)"
          unfolding split_ok_iff by blast
        with old1[OF True] old1[OF \<open>k < i\<close>] show ?thesis by simp
      next
        case False
        with k have ki: "Suc k = i" "k = i - 1" by simp_all
        have "k < i" using ki by simp
        from p thr new1 last0 old1[OF \<open>k < i\<close>] ki show ?thesis by simp
      qed
    qed
  }
  {
    assume thr: "\<not> thr \<le> p"
    show "split_ok thr subs (scenes @ [cur @ [x]]) (Suc i)"
      unfolding split_ok_iff
    proof (intro allI impI)
      fix k assume k: "Suc k < Suc i"
      show "\<exists>p. pause_between (subs ! k) (subs ! Suc k) = Inr p \<and>
             scene_of (scenes @ [cur @ [x]]) (Suc k) =
             (if thr \<le> p then Suc (scene_of (scenes @ [cur @ [x]]) k)
              else scene_of (scenes @ [cur @ [x]]) k)"
      proof (cases "Suc k < i")
        case True
        then have "k < i" by simp
        from ok True obtain q where "pause_between (subs ! k) (subs ! Suc k) = Inr q"
          "scene_of (scenes @ [cur]) (Suc k) =
             (if thr \<le> q then Suc (scene_of (scenes @ [cur]) k) else scene_of (scenes @ [cur]) k)"
          unfolding split_ok_iff by blast
        with old2[OF True] old2[OF \<open>k < i\<close>] show ?thesis by simp
      next
        case False
        with k have ki: "Suc k = i" "k = i - 1" by simp_all
        have "k < i" using ki by simp
        from p thr new2 last0 old2[OF \<open>k < i\<close>] ki show ?thesis by simp
      qed
    qed
  }
qed

lemma seg_inv_step:
  assumes inv: "seg_inv thr subs i st" and i: "i < length subs"
    and st: "scene_step thr subs i (subs ! i) st = Inr st'"
  shows "seg_inv thr subs (Suc i) st'"
proof (cases st)
  case (Pair scenes cur)
  show ?thesis
  proof (cases "i = 0")
    case True
    with inv Pair have "scenes = []" "cur = []" by (auto simp: seg_inv_def)
    with st Pair True have "st' = ([], [subs ! 0])" by (simp add: scene_step_first)
    with True show ?thesis by (simp add: seg_inv_def split_ok_iff)
  next
    case False
    with inv Pair have pos: "0 < i" and cur: "cur \<noteq> []"
      and len: "length (concat scenes) + length cur = i"
      and ok: "split_ok thr subs (scenes @ [cur]) i"
      by (auto simp: seg_inv_def)
    from scene_step_next[OF pos i cur] st Pair obtain p where
      p: "pause_between (subs ! (i - 1)) (subs ! i) = Inr p"
      and st': "st' = (if thr \<le> p then (scenes @ [cur], [subs ! i]) else (scenes, cur @ [subs ! i]))"
      by blast
    show ?thesis
    proof (cases "thr \<le> p")
      case True
      from split_ok_extend(1)[OF ok pos cur len p True, of "subs ! i"] st' True len
      show ?thesis by (simp add: seg_inv_def)
    next
      case False
      from split_ok_extend(2)[OF ok pos cur len p False, of "subs ! i"] st' False len
      show ?thesis by (simp add: seg_inv_def)
    qed
  qed
qed

lemma scenes_loop_inv:
  assumes "scenes_loop thr subs i rest st = Inr st'"
    and "rest = drop i subs" and "seg_inv thr subs i st"
  shows "seg_inv thr subs (max i (length subs)) st'"
  using assms
proof (induction rest arbitrary: i st)
  case Nil
  then have "length subs \<le> i" by simp
  with Nil show ?case by (simp add: max_absorb1)
next
  case (Cons sub rest)
  from Cons.prems(2) have i: "i < length subs"
    by (metis drop_all list.distinct(1) not_less)
  with Cons.prems(2) have sub: "sub = subs ! i" and rest: "rest = drop (Suc i) subs"
    by (simp_all add: Cons_nth_drop_Suc[symmetric])
  from Cons.prems(1) obtain st1 where
    st: "scene_step thr subs i sub st = Inr st1"
    and lp: "scenes_loop thr subs (Suc i) rest st1 = Inr st'"
    by (auto split: sum.splits)
  from seg_inv_step[OF Cons.prems(3) i] st sub have "seg_inv thr subs (Suc i) st1" by simp
  from Cons.IH[OF lp rest this] i show ?case by (simp add: max_def)
qed

lemma group_into_scenes_split:
  assumes g: "group_into_scenes subs thr = Inr scenes" and k: "Suc k < length subs"
  shows "\<exists>p. pause_between (subs ! k) (subs ! Suc k) = Inr p
           \<and> scene_of scenes (Suc k) = (if thr \<le> p then Suc (scene_of scenes k) else scene_of scenes k)"
proof -
  from g obtain sc cur where
    lp: "scenes_loop thr subs 0 subs ([], []) = Inr (sc, cur)"
    and res: "scenes = (if cur \<noteq> [] then sc @ [cur] else sc)"
    by (auto simp: group_into_scenes_def split: sum.splits)
  have "seg_inv thr subs 0 ([], [])" by (simp add: seg_inv_def)
  from scenes_loop_inv[OF lp _ this] have "seg_inv thr subs (length subs) (sc, cur)" by simp
  with k res have "split_ok thr subs scenes (length subs)"
    by (auto simp: seg_inv_def)
  with k show ?thesis unfolding split_ok_iff by blast
qed


text \<open>A timestamp in clock range is accepted by \<open>strptime\<close>.\<close>

lemma not_digit_sep: "\<not> is_digit CHR '':''" "\<not> is_digit CHR '',''"
  by (simp_all add: is_digit_def)

lemma clock_timestamp_parsable:
  assumes d: "is_digit a" "is_digit b" "is_digit c" "is_digit d" "is_digit e" "is_digit f"
      "is_digit g" "is_digit h" "is_digit i"
    and r: "nat_of_digits [a, b] \<le> 23" "nat_of_digits [c, d] \<le> 59" "nat_of_digits [e, f] \<le> 59"
  shows "parsable [a, b, CHR '':'', c, d, CHR '':'', e, f, CHR '','', g, h, i]"
  using d r
  by (simp add: parsable_def strptime_def match_time_format_def read_field_def expect_def
      not_digit_sep)


lemma pairs_parsable_iff:
  "pairs_parsable subs \<longleftrightarrow>
     (\<forall>k. Suc k < length subs
        \<longrightarrow> parsable (u_end (subs ! k)) \<and> parsable (u_start (subs ! Suc k)))"
proof -
  have range: "(\<forall>k \<in> set [0 ..< n - 1]. P k) \<longleftrightarrow> (\<forall>k. Suc k < n \<longrightarrow> P k)" for P and n :: nat
    by auto
  show ?thesis
    unfolding pairs_parsable_def list_all_iff range ..
qed

lemma parsable_iff: "parsable s \<longleftrightarrow> (\<exists>t. strptime s = Inr t)"
  by (cases "strptime s") (simp_all add: parsable_def)

lemma pause_between_parsable:
  "(\<exists>p. pause_between a b = Inr p) \<longleftrightarrow> parsable (u_end a) \<and> parsable (u_start b)"
  by (auto simp: pause_between_def parsable_iff split: sum.splits)

lemma scene_step_pairs:
  assumes pp: "pairs_parsable subs" and i: "i < length subs"
    and c: "(i = 0 \<and> cur = []) \<or> (0 < i \<and> cur \<noteq> [])"
  shows "\<exists>sc' cur'. scene_step thr subs i (subs ! i) (scenes, cur) = Inr (sc', cur') \<and> cur' \<noteq> []"
proof (cases "cur = []")
  case True
  then show ?thesis by (simp add: scene_step_first)
next
  case False
  with c have pos: "0 < i" by auto
  then have k: "Suc (i - 1) < length subs" "Suc (i - 1) = i" using i by simp_all
  from pp k have "parsable (u_end (subs ! (i - 1)))" "parsable (u_start (subs ! i))"
    unfolding pairs_parsable_iff by (metis)+
  then obtain pe cs where "strptime (u_end (subs ! (i - 1))) = Inr pe"
    "strptime (u_start (subs ! i)) = Inr cs"
    unfolding parsable_iff by blast
  with False py_index_pred[OF pos i] show ?thesis
    by (simp add: scene_step_def)
qed

lemma scenes_loop_pairs:
  assumes pp: "pairs_parsable subs"
    and "rest = drop i subs"
    and "(i = 0 \<and> cur = []) \<or> (0 < i \<and> cur \<noteq> [])"
  shows "\<exists>st'. scenes_loop thr subs i rest (scenes, cur) = Inr st'"
  using assms(2,3)
proof (induction rest arbitrary: i scenes cur)
  case Nil
  show ?case by simp
next
  case (Cons sub rest)
  from Cons.prems(1) have i: "i < length subs"
    by (metis drop_all list.distinct(1) not_less)
  with Cons.prems(1) have sub: "sub = subs ! i" and rest: "rest = drop (Suc i) subs"
    by (simp_all add: Cons_nth_drop_Suc[symmetric])
  from scene_step_pairs[OF pp i Cons.prems(2)] sub obtain sc1 c1 where
    st: "scene_step thr subs i sub (scenes, cur) = Inr (sc1, c1)" and c1: "c1 \<noteq> []"
    by blast
  from c1 have "(Suc i = 0 \<and> c1 = []) \<or> (0 < Suc i \<and> c1 \<noteq> [])" by simp
  from Cons.IH[OF rest this] st show ?case by simp
qed

lemma group_into_scenes_returns_iff:
  "(\<exists>scenes. group_into_scenes subs thr = Inr scenes) \<longleftrightarrow> pairs_parsable subs"
proof
  assume "\<exists>scenes. group_into_scenes subs thr = Inr scenes"
  then obtain scenes where g: "group_into_scenes subs thr = Inr scenes" ..
  show "pairs_parsable subs"
    unfolding pairs_parsable_iff
  proof (intro allI impI)
    fix k assume "Suc k < length subs"
    from group_into_scenes_split[OF g this]
    have "\<exists>p. pause_between (subs ! k) (subs ! Suc k) = Inr p" by blast
    then show "parsable (u_end (subs ! k)) \<and> parsable (u_start (subs ! Suc k))"
      by (simp only: pause_between_parsable)
  qed
next
  assume "pairs_parsable subs"
  from scenes_loop_pairs[OF this, of subs 0 "[]" thr "[]"] obtain st' where
    "scenes_loop thr subs 0 subs ([], []) = Inr st'" by auto
  then show "\<exists>scenes. group_into_scenes subs thr = Inr scenes"
    by (cases st') (simp add: group_into_scenes_def)
qed

lemma strptime_error: "strptime s = Inl e \<Longrightarrow> \<exists>msg. e = ValueError msg"
  by (auto simp: strptime_def split: option.splits if_splits prod.splits)

lemma scene_step_error:
  assumes "i < length subs" "scene_step thr subs i sub st = Inl e"
  shows "\<exists>msg. e = ValueError msg"
proof -
  from py_index_pred_any[OF assms(1)] obtain x where
    x: "py_index subs (int i - 1) = Inr x" by blast
  from assms(2) show ?thesis
    by (cases st) (auto simp: scene_step_def x split: if_splits sum.splits dest: strptime_error)
qed

lemma scenes_loop_error:
  assumes "i + length rest \<le> length subs" "scenes_loop thr subs i rest st = Inl e"
  shows "\<exists>msg. e = ValueError msg"
  using assms
proof (induction rest arbitrary: i st)
  case Nil
  then show ?case by simp
next
  case (Cons sub rest)
  from Cons.prems(1) have i: "i < length subs" by simp
  show ?case
  proof (cases "scene_step thr subs i sub st")
    case (Inl e')
    with Cons.prems(2) have "e' = e" by simp
    with scene_step_error[OF i Inl] show ?thesis by simp
  next
    case (Inr st1)
    with Cons.prems(2) have "scenes_loop thr subs (Suc i) rest st1 = Inl e" by simp
    moreover from Cons.prems(1) have "Suc i + length rest \<le> length subs" by simp
    ultimately show ?thesis by (rule Cons.IH[rotated])
  qed
qed

lemma group_into_scenes_error:
  assumes "group_into_scenes subs thr = Inl e"
  shows "\<exists>msg. e = ValueError msg"
proof -
  from assms have "scenes_loop thr subs 0 subs ([], []) = Inl e"
    by (auto simp: group_into_scenes_def split: sum.splits)
  then show ?thesis by (intro scenes_loop_error[of 0 subs subs thr "([], [])" e]) simp_all
qed

text \<open>
  Claim C2, as amended. \<open>group_into_scenes\<close> returns exactly when \<open>strptime\<close> accepts the
  end of each entry that has a successor and the start of each entry that has a
  predecessor, and raises \<open>ValueError\<close> otherwise. When it returns, the pause between
  two consecutive entries is the float \<open>total_seconds()\<close> of the later start minus the
  earlier end; the later entry lies in the scene after the earlier one's when that
  pause is at least the threshold, and in the same scene when it is below (zero and
  negative pauses included).
\<close>

theorem group_into_scenes_pause_split:
  "(\<forall>scenes. group_into_scenes subs thr = Inr scenes \<and> Suc k < length subs
      \<longrightarrow> (\<exists>p. pause_between (subs ! k) (subs ! Suc k) = Inr p
             \<and> (thr \<le> p \<longrightarrow> scene_of scenes (Suc k) = Suc (scene_of scenes k))
             \<and> (p < thr \<longrightarrow> scene_of scenes (Suc k) = scene_of scenes k)))
   \<and> (pairs_parsable subs \<longrightarrow> (\<exists>scenes. group_into_scenes subs thr = Inr scenes))
   \<and> (\<not> pairs_parsable subs \<longrightarrow> (\<exists>msg. group_into_scenes subs thr = Inl (ValueError msg)))"
proof (intro conjI allI impI)
  fix scenes
  assume a: "group_into_scenes subs thr = Inr scenes \<and> Suc k < length subs"
  then have g: "group_into_scenes subs thr = Inr scenes" and k: "Suc k < length subs"
    by simp_all
  from group_into_scenes_split[OF g k] obtain p where
    p: "pause_between (subs ! k) (subs ! Suc k) = Inr p"
    and s: "scene_of scenes (Suc k) = (if thr \<le> p then Suc (scene_of scenes k) else scene_of scenes k)"
    by blast
  from s have "thr \<le> p \<longrightarrow> scene_of scenes (Suc k) = Suc (scene_of scenes k)"
    and "p < thr \<longrightarrow> scene_of scenes (Suc k) = scene_of scenes k"
    by simp_all
  with p show "\<exists>p. pause_between (subs ! k) (subs ! Suc k) = Inr p
             \<and> (thr \<le> p \<longrightarrow> scene_of scenes (Suc k) = Suc (scene_of scenes k))
             \<and> (p < thr \<longrightarrow> scene_of scenes (Suc k) = scene_of scenes k)"
    by blast
next
  assume "pairs_parsable subs"
  then show "\<exists>scenes. group_into_scenes subs thr = Inr scenes"
    by (simp only: group_into_scenes_returns_iff)
next
  assume n: "\<not> pairs_parsable subs"
  show "\<exists>msg. group_into_scenes subs thr = Inl (ValueError msg)"
  proof (cases "group_into_scenes subs thr")
    case (Inl e)
    with group_into_scenes_error[OF Inl] show ?thesis by auto
  next
    case (Inr scenes)
    then have "pairs_parsable subs"
      using group_into_scenes_returns_iff[of subs thr] by blast
    with n show ?thesis by simp
  qed
qed

theorem group_into_scenes_pause_split_witness:
  "pairs_parsable
     [\<lparr>u_index = 1, u_start = ''00:00:00,000'', u_end = ''00:00:01,000'', u_text = ''a''\<rparr>,
      \<lparr>u_index = 2, u_start = ''00:00:02,000'', u_end = ''00:00:03,000'', u_text = ''b''\<rparr>,
      \<lparr>u_index = 3, u_start = ''00:00:07,000'', u_end = ''00:00:08,000'', u_text = ''c''\<rparr>]
   \<and> group_into_scenes
     [\<lparr>u_index = 1, u_start = ''00:00:00,000'', u_end = ''00:00:01,000'', u_text = ''a''\<rparr>,
      \<lparr>u_index = 2, u_start = ''00:00:02,000'', u_end = ''00:00:03,000'', u_text = ''b''\<rparr>,
      \<lparr>u_index = 3, u_start = ''00:00:07,000'', u_end = ''00:00:08,000'', u_text = ''c''\<rparr>] 4
   = Inr [[\<lparr>u_index = 1, u_start = ''00:00:00,000'', u_end = ''00:00:01,000'', u_text = ''a''\<rparr>,
       \<lparr>u_index = 2, u_start = ''00:00:02,000'', u_end = ''00:00:03,000'', u_text = ''b''\<rparr>],
      [\<lparr>u_index = 3, u_start = ''00:00:07,000'', u_end = ''00:00:08,000'', u_text = ''c''\<rparr>]]
   \<and> pause_between ([\<lparr>u_index = 1, u_start = ''00:00:00,000'', u_end = ''00:00:01,000'', u_text = ''a''\<rparr>,
      \<lparr>u_index = 2, u_start = ''00:00:02,000'', u_end = ''00:00:03,000'', u_text = ''b''\<rparr>,
      \<lparr>u_index = 3, u_start = ''00:00:07,000'', u_end = ''00:00:08,000'', u_text = ''c''\<rparr>] ! 1) ([\<lparr>u_index = 1, u_start = ''00:00:00,000'', u_end = ''00:00:01,000'', u_text = ''a''\<rparr>,
      \<lparr>u_index = 2, u_start = ''00:00:02,000'', u_end = ''00:00:03,000'', u_text = ''b''\<rparr>,
      \<lparr>u_index = 3, u_start = ''00:00:07,000'', u_end = ''00:00:08,000'', u_text = ''c''\<rparr>] ! Suc 1) = Inr 4
   \<and> scene_of [[\<lparr>u_index = 1, u_start = ''00:00:00,000'', u_end = ''00:00:01,000'', u_text = ''a''\<rparr>,
       \<lparr>u_index = 2, u_start = ''00:00:02,000'', u_end = ''00:00:03,000'', u_text = ''b''\<rparr>],
      [\<lparr>u_index = 3, u_start = ''00:00:07,000'', u_end = ''00:00:08,000'', u_text = ''c''\<rparr>]] (Suc 1) = Suc (scene_of [[\<lparr>u_index = 1, u_start = ''00:00:00,000'', u_end = ''00:00:01,000'', u_text = ''a''\<rparr>,
       \<lparr>u_index = 2, u_start = ''00:00:02,000'', u_end = ''00:00:03,000'', u_text = ''b''\<rparr>],
      [\<lparr>u_index = 3, u_start = ''00:00:07,000'', u_end = ''00:00:08,000'', u_text = ''c''\<rparr>]] 1)
   \<and> pause_between ([\<lparr>u_index = 1, u_start = ''00:00:00,000'', u_end = ''00:00:01,000'', u_text = ''a''\<rparr>,
      \<lparr>u_index = 2, u_start = ''00:00:02,000'', u_end = ''00:00:03,000'', u_text = ''b''\<rparr>,
      \<lparr>u_index = 3, u_start = ''00:00:07,000'', u_end = ''00:00:08,000'', u_text = ''c''\<rparr>] ! 0) ([\<lparr>u_index = 1, u_start = ''00:00:00,000'', u_end = ''00:00:01,000'', u_text = ''a''\<rparr>,
      \<lparr>u_index = 2, u_start = ''00:00:02,000'', u_end = ''00:00:03,000'', u_text = ''b''\<rparr>,
      \<lparr>u_index = 3, u_start = ''00:00:07,000'', u_end = ''00:00:08,000'', u_text = ''c''\<rparr>] ! Suc 0) = Inr 1
   \<and> scene_of [[\<lparr>u_index = 1, u_start = ''00:00:00,000'', u_end = ''00:00:01,000'', u_text = ''a''\<rparr>,
       \<lparr>u_index = 2, u_start = ''00:00:02,000'', u_end = ''00:00:03,000'', u_text = ''b''\<rparr>],
      [\<lparr>u_index = 3, u_start = ''00:00:07,000'', u_end = ''00:00:08,000'', u_text = ''c''\<rparr>]] (Suc 0) = scene_of [[\<lparr>u_index = 1, u_start = ''00:00:00,000'', u_end = ''00:00:01,000'', u_text = ''a''\<rparr>,
       \<lparr>u_index = 2, u_start = ''00:00:02,000'', u_end = ''00:00:03,000'', u_text = ''b''\<rparr>],
      [\<lparr>u_index = 3, u_start = ''00:00:07,000'', u_end = ''00:00:08,000'', u_text = ''c''\<rparr>]] 0
   \<and> pairs_parsable
     [\<lparr>u_index = 1, u_start = ''99:99:99,999'', u_end = ''00:00:01,000'', u_text = ''a''\<rparr>,
      \<lparr>u_index = 2, u_start = ''00:00:01,100'', u_end = ''99:99:99,999'', u_text = ''b''\<rparr>]
   \<and> pause_between ([\<lparr>u_index = 1, u_start = ''99:99:99,999'', u_end = ''00:00:01,000'', u_text = ''a''\<rparr>,
      \<lparr>u_index = 2, u_start = ''00:00:01,100'', u_end = ''99:99:99,999'', u_text = ''b''\<rparr>] ! 0) ([\<lparr>u_index = 1, u_start = ''99:99:99,999'', u_end = ''00:00:01,000'', u_text = ''a''\<rparr>,
      \<lparr>u_index = 2, u_start = ''00:00:01,100'', u_end = ''99:99:99,999'', u_text = ''b''\<rparr>] ! Suc 0) = Inr (3602879701896397 / 36028797018963968)
   \<and> group_into_scenes
     [\<lparr>u_index = 1, u_start = ''99:99:99,999'', u_end = ''00:00:01,000'', u_text = ''a''\<rparr>,
      \<lparr>u_index = 2, u_start = ''00:00:01,100'', u_end = ''99:99:99,999'', u_text = ''b''\<rparr>] (3602879701896397 / 36028797018963968)
   = Inr [[\<lparr>u_index = 1, u_start = ''99:99:99,999'', u_end = ''00:00:01,000'', u_text = ''a''\<rparr>],
      [\<lparr>u_index = 2, u_start = ''00:00:01,100'', u_end = ''99:99:99,999'', u_text = ''b''\<rparr>]]"
proof -
  have h: "pairs_parsable
     [\<lparr>u_index = 1, u_start = ''00:00:00,000'', u_end = ''00:00:01,000'', u_text = ''a''\<rparr>,
      \<lparr>u_index = 2, u_start = ''00:00:02,000'', u_end = ''00:00:03,000'', u_text = ''b''\<rparr>,
      \<lparr>u_index = 3, u_start = ''00:00:07,000'', u_end = ''00:00:08,000'', u_text = ''c''\<rparr>]"
    by (simp add: pairs_parsable_def parsable_def strptime_eval)
  have e: "group_into_scenes
     [\<lparr>u_index = 1, u_start = ''00:00:00,000'', u_end = ''00:00:01,000'', u_text = ''a''\<rparr>,
      \<lparr>u_index = 2, u_start = ''00:00:02,000'', u_end = ''00:00:03,000'', u_text = ''b''\<rparr>,
      \<lparr>u_index = 3, u_start = ''00:00:07,000'', u_end = ''00:00:08,000'', u_text = ''c''\<rparr>] 4
   = Inr [[\<lparr>u_index = 1, u_start = ''00:00:00,000'', u_end = ''00:00:01,000'', u_text = ''a''\<rparr>,
       \<lparr>u_index = 2, u_start = ''00:00:02,000'', u_end = ''00:00:03,000'', u_text = ''b''\<rparr>],
      [\<lparr>u_index = 3, u_start = ''00:00:07,000'', u_end = ''00:00:08,000'', u_text = ''c''\<rparr>]]"
    by (simp add: segment_eval)
  have p: "pause_between ([\<lparr>u_index = 1, u_start = ''00:00:00,000'', u_end = ''00:00:01,000'', u_text = ''a''\<rparr>,
      \<lparr>u_index = 2, u_start = ''00:00:02,000'', u_end = ''00:00:03,000'', u_text = ''b''\<rparr>,
      \<lparr>u_index = 3, u_start = ''00:00:07,000'', u_end = ''00:00:08,000'', u_text = ''c''\<rparr>] ! 1) ([\<lparr>u_index = 1, u_start = ''00:00:00,000'', u_end = ''00:00:01,000'', u_text = ''a''\<rparr>,
      \<lparr>u_index = 2, u_start = ''00:00:02,000'', u_end = ''00:00:03,000'', u_text = ''b''\<rparr>,
      \<lparr>u_index = 3, u_start = ''00:00:07,000'', u_end = ''00:00:08,000'', u_text = ''c''\<rparr>] ! Suc 1) = Inr 4"
    by (simp add: pause_between_def segment_eval)
  have q: "pause_between ([\<lparr>u_index = 1, u_start = ''00:00:00,000'', u_end = ''00:00:01,000'', u_text = ''a''\<rparr>,
      \<lparr>u_index = 2, u_start = ''00:00:02,000'', u_end = ''00:00:03,000'', u_text = ''b''\<rparr>,
      \<lparr>u_index = 3, u_start = ''00:00:07,000'', u_end = ''00:00:08,000'', u_text = ''c''\<rparr>] ! 0) ([\<lparr>u_index = 1, u_start = ''00:00:00,000'', u_end = ''00:00:01,000'', u_text = ''a''\<rparr>,
      \<lparr>u_index = 2, u_start = ''00:00:02,000'', u_end = ''00:00:03,000'', u_text = ''b''\<rparr>,
      \<lparr>u_index = 3, u_start = ''00:00:07,000'', u_end = ''00:00:08,000'', u_text = ''c''\<rparr>] ! Suc 0) = Inr 1"
    by (simp add: pause_between_def segment_eval)
  have k: "Suc 1 < length [\<lparr>u_index = 1, u_start = ''00:00:00,000'', u_end = ''00:00:01,000'', u_text = ''a''\<rparr>,
      \<lparr>u_index = 2, u_start = ''00:00:02,000'', u_end = ''00:00:03,000'', u_text = ''b''\<rparr>,
      \<lparr>u_index = 3, u_start = ''00:00:07,000'', u_end = ''00:00:08,000'', u_text = ''c''\<rparr>]" "Suc 0 < length [\<lparr>u_index = 1, u_start = ''00:00:00,000'', u_end = ''00:00:01,000'', u_text = ''a''\<rparr>,
      \<lparr>u_index = 2, u_start = ''00:00:02,000'', u_end = ''00:00:03,000'', u_text = ''b''\<rparr>,
      \<lparr>u_index = 3, u_start = ''00:00:07,000'', u_end = ''00:00:08,000'', u_text = ''c''\<rparr>]"
    by simp_all
  have h2: "pairs_parsable
     [\<lparr>u_index = 1, u_start = ''99:99:99,999'', u_end = ''00:00:01,000'', u_text = ''a''\<rparr>,
      \<lparr>u_index = 2, u_start = ''00:00:01,100'', u_end = ''99:99:99,999'', u_text = ''b''\<rparr>]"
    by (simp add: pairs_parsable_def parsable_def strptime_eval)
  have p2: "pause_between ([\<lparr>u_index = 1, u_start = ''99:99:99,999'', u_end = ''00:00:01,000'', u_text = ''a''\<rparr>,
      \<lparr>u_index = 2, u_start = ''00:00:01,100'', u_end = ''99:99:99,999'', u_text = ''b''\<rparr>] ! 0) ([\<lparr>u_index = 1, u_start = ''99:99:99,999'', u_end = ''00:00:01,000'', u_text = ''a''\<rparr>,
      \<lparr>u_index = 2, u_start = ''00:00:01,100'', u_end = ''99:99:99,999'', u_text = ''b''\<rparr>] ! Suc 0) = Inr (3602879701896397 / 36028797018963968)"
    by (simp add: pause_between_def segment_eval)
  have e2: "group_into_scenes
     [\<lparr>u_index = 1, u_start = ''99:99:99,999'', u_end = ''00:00:01,000'', u_text = ''a''\<rparr>,
      \<lparr>u_index = 2, u_start = ''00:00:01,100'', u_end = ''99:99:99,999'', u_text = ''b''\<rparr>] (3602879701896397 / 36028797018963968)
   = Inr [[\<lparr>u_index = 1, u_start = ''99:99:99,999'', u_end = ''00:00:01,000'', u_text = ''a''\<rparr>],
      [\<lparr>u_index = 2, u_start = ''00:00:01,100'', u_end = ''99:99:99,999'', u_text = ''b''\<rparr>]]"
    by (simp add: segment_eval)
  from group_into_scenes_pause_split [of "[\<lparr>u_index = 1, u_start = ''00:00:00,000'', u_end = ''00:00:01,000'', u_text = ''a''\<rparr>,
      \<lparr>u_index = 2, u_start = ''00:00:02,000'', u_end = ''00:00:03,000'', u_text = ''b''\<rparr>,
      \<lparr>u_index = 3, u_start = ''00:00:07,000'', u_end = ''00:00:08,000'', u_text = ''c''\<rparr>]" 4 1]
    group_into_scenes_pause_split [of "[\<lparr>u_index = 1, u_start = ''00:00:00,000'', u_end = ''00:00:01,000'', u_text = ''a''\<rparr>,
      \<lparr>u_index = 2, u_start = ''00:00:02,000'', u_end = ''00:00:03,000'', u_text = ''b''\<rparr>,
      \<lparr>u_index = 3, u_start = ''00:00:07,000'', u_end = ''00:00:08,000'', u_text = ''c''\<rparr>]" 4 0] h e k p q h2 p2 e2
  show ?thesis by auto
qed

theorem group_into_scenes_hour_counterexample:
  "list_all (\<lambda>u. is_timestamp (u_start u) \<and> is_timestamp (u_end u))
     [\<lparr>u_index = 1, u_start = ''00:00:00,000'', u_end = ''00:00:01,000'', u_text = ''a''\<rparr>,
      \<lparr>u_index = 2, u_start = ''25:00:00,000'', u_end = ''25:00:01,000'', u_text = ''b''\<rparr>]
   \<and> group_into_scenes
     [\<lparr>u_index = 1, u_start = ''00:00:00,000'', u_end = ''00:00:01,000'', u_text = ''a''\<rparr>,
      \<lparr>u_index = 2, u_start = ''25:00:00,000'', u_end = ''25:00:01,000'', u_text = ''b''\<rparr>] 4
   = Inl (ValueError ''time data does not match format'')"
  by (simp add: segment_eval is_timestamp_def timestamp_pattern_def)

section \<open>The response parser\<close>

lemmas reply_eval = parse_llm_response_def parse_body_def parse_line_def field_value_def
  strip_brackets_def parse_list_items_def py_strip_def is_space_def startswith_def
  endswith_def initial_analysis_def

text \<open>
  Claim C5. The reply \<open>"Summary: A man walks.\nCharacters: [Jeff, Paula]\nMood: tense\nCultural References: []"\<close>
  is decoded to the summary \<open>A man walks.\<close>, the characters \<open>Jeff\<close> and \<open>Paula\<close>, the
  mood \<open>tense\<close> and no cultural reference: the literal \<open>[]\<close> gives the empty list.
\<close>

theorem parse_llm_response_example:
  "parse_llm_response
     (Some (''Summary: A man walks.'' @ [NL] @ ''Characters: [Jeff, Paula]'' @ [NL]
            @ ''Mood: tense'' @ [NL] @ ''Cultural References: []''))
   = \<lparr>summary = ''A man walks.'', characters = [''Jeff'', ''Paula''],
      mood = ''tense'', cultural_refs = []\<rparr>"
  by (simp add: reply_eval)

lemma foldl_parse_line_unrecognized:
  "list_all (\<lambda>l. \<not> recognized l) ls \<Longrightarrow> foldl parse_line a ls = a"
  by (induction ls arbitrary: a) (simp_all add: recognized_def parse_line_def Let_def)

text \<open>
  Claim C3, as amended. On a string that is empty, or none of whose lines starts, once
  trimmed, with one of the four labels, \<open>parse_llm_response\<close> returns the initial
  dictionary: empty summary and mood, no characters and no cultural references. It
  never raises: the body of the \<open>try\<close> succeeds on every string, and a reply without
  text is caught and gives the fallback dictionary.
\<close>

theorem parse_llm_response_unrecognized:
  "(list_all (\<lambda>l. \<not> recognized l) (py_split [NL] (py_strip t))
      \<longrightarrow> parse_llm_response (Some t) = initial_analysis)
   \<and> parse_llm_response (Some []) = initial_analysis
   \<and> (\<exists>a. parse_body (Some t) = Inr a)
   \<and> parse_llm_response None = sentinel"
proof -
  have "parse_line initial_analysis [] = initial_analysis"
    by (simp add: parse_line_def py_strip_def startswith_def)
  then show ?thesis
    by (simp add: parse_llm_response_def parse_body_def foldl_parse_line_unrecognized
        py_strip_def)
qed

theorem parse_llm_response_unrecognized_witness:
  "list_all (\<lambda>l. \<not> recognized l) (py_split [NL] (py_strip (''no labels here'' @ [NL] @ ''at all'')))
   \<and> parse_llm_response (Some (''no labels here'' @ [NL] @ ''at all''))
     = \<lparr>summary = [], characters = [], mood = [], cultural_refs = []\<rparr>"
proof -
  have h: "list_all (\<lambda>l. \<not> recognized l)
             (py_split [NL] (py_strip (''no labels here'' @ [NL] @ ''at all'')))"
    by (simp add: recognized_def py_strip_def is_space_def startswith_def)
  from parse_llm_response_unrecognized [of "''no labels here'' @ [NL] @ ''at all''"] h
  show ?thesis by (simp add: initial_analysis_def)
qed

theorem parse_llm_response_sentinel_counterexample:
  "parse_llm_response (Some []) = \<lparr>summary = [], characters = [], mood = [], cultural_refs = []\<rparr>
   \<and> parse_llm_response (Some []) \<noteq> sentinel
   \<and> parse_llm_response (Some ''garbage'') \<noteq> sentinel"
  by (simp add: reply_eval sentinel_def)


lemma startswith_Cons:
  "startswith s (c # p) = (case s of [] \<Rightarrow> False | x # xs \<Rightarrow> x = c \<and> startswith xs p)"
  by (cases s) (auto simp: startswith_def)

lemma mood_not_other:
  assumes "startswith line ''Mood:''"
  shows "\<not> startswith line ''Summary:''" and "\<not> startswith line ''Characters:''"
  using assms by (auto simp: startswith_Cons split: list.splits)

lemma summary_parse_line:
  "summary (parse_line a l) =
     (if has_label ''Summary:'' l then field_value ''Summary:'' (py_strip l) else summary a)"
  by (simp add: parse_line_def has_label_def Let_def)

lemma mood_parse_line:
  "mood (parse_line a l) =
     (if has_label ''Mood:'' l then field_value ''Mood:'' (py_strip l) else mood a)"
  using mood_not_other[of "py_strip l"]
  by (auto simp: parse_line_def has_label_def Let_def)

lemma summary_foldl:
  "summary (foldl parse_line a ls) =
     (if filter (has_label ''Summary:'') ls = [] then summary a
      else field_value ''Summary:'' (py_strip (last (filter (has_label ''Summary:'') ls))))"
  by (induction ls arbitrary: a) (simp_all add: summary_parse_line)

lemma mood_foldl:
  "mood (foldl parse_line a ls) =
     (if filter (has_label ''Mood:'') ls = [] then mood a
      else field_value ''Mood:'' (py_strip (last (filter (has_label ''Mood:'') ls))))"
  by (induction ls arbitrary: a) (simp_all add: mood_parse_line)

text \<open>
  Claim C9. When lines of the reply start with \<open>Summary:\<close>, the returned summary is the
  value taken from the last of them, and likewise for \<open>Mood:\<close> and the mood: each such
  line overwrites the value of the ones before.
\<close>

theorem last_labelled_line_wins:
  "(filter (has_label ''Summary:'') (py_split [NL] (py_strip t)) \<noteq> []
      \<longrightarrow> summary (parse_llm_response (Some t))
          = field_value ''Summary:''
              (py_strip (last (filter (has_label ''Summary:'') (py_split [NL] (py_strip t))))))
   \<and> (filter (has_label ''Mood:'') (py_split [NL] (py_strip t)) \<noteq> []
      \<longrightarrow> mood (parse_llm_response (Some t))
          = field_value ''Mood:''
              (py_strip (last (filter (has_label ''Mood:'') (py_split [NL] (py_strip t))))))"
  by (simp add: parse_llm_response_def parse_body_def summary_foldl mood_foldl)

theorem last_labelled_line_wins_witness:
  "filter (has_label ''Summary:'')
     (py_split [NL] (py_strip (''Summary: one'' @ [NL] @ ''Mood: calm'' @ [NL]
                               @ ''Summary: two'' @ [NL] @ ''Mood: tense'')))
   = [''Summary: one'', ''Summary: two'']
   \<and> filter (has_label ''Mood:'')
     (py_split [NL] (py_strip (''Summary: one'' @ [NL] @ ''Mood: calm'' @ [NL]
                               @ ''Summary: two'' @ [NL] @ ''Mood: tense'')))
   = [''Mood: calm'', ''Mood: tense'']
   \<and> summary (parse_llm_response (Some (''Summary: one'' @ [NL] @ ''Mood: calm'' @ [NL]
                               @ ''Summary: two'' @ [NL] @ ''Mood: tense''))) = ''two''
   \<and> mood (parse_llm_response (Some (''Summary: one'' @ [NL] @ ''Mood: calm'' @ [NL]
                               @ ''Summary: two'' @ [NL] @ ''Mood: tense''))) = ''tense''"
proof -
  have f: "filter (has_label ''Summary:'')
     (py_split [NL] (py_strip (''Summary: one'' @ [NL] @ ''Mood: calm'' @ [NL]
                               @ ''Summary: two'' @ [NL] @ ''Mood: tense'')))
   = [''Summary: one'', ''Summary: two'']"
    by (simp add: has_label_def py_strip_def is_space_def startswith_def)
  have g: "filter (has_label ''Mood:'')
     (py_split [NL] (py_strip (''Summary: one'' @ [NL] @ ''Mood: calm'' @ [NL]
                               @ ''Summary: two'' @ [NL] @ ''Mood: tense'')))
   = [''Mood: calm'', ''Mood: tense'']"
    by (simp add: has_label_def py_strip_def is_space_def startswith_def)
  have v: "field_value ''Summary:'' (py_strip ''Summary: two'') = ''two''"
    "field_value ''Mood:'' (py_strip ''Mood: tense'') = ''tense''"
    by (simp_all add: field_value_def py_strip_def is_space_def startswith_def)
  from last_labelled_line_wins [of "''Summary: one'' @ [NL] @ ''Mood: calm'' @ [NL]
                               @ ''Summary: two'' @ [NL] @ ''Mood: tense''"] f g v
  show ?thesis by simp
qed

subsection \<open>The items of the two lists\<close>

lemma py_strip_Nil: "py_strip [] = []"
  by (simp add: py_strip_def)

lemma last_dropWhile_keep:
  "dropWhile P xs \<noteq> [] \<Longrightarrow> last (dropWhile P xs) = last xs"
  by (metis last_appendR takeWhile_dropWhile_id)

lemma py_strip_idem: "py_strip (py_strip s) = py_strip s"
proof -
  define u where "u = dropWhile is_space s"
  define v where "v = dropWhile is_space (rev u)"
  have t: "py_strip s = rev v" by (simp add: py_strip_def u_def v_def)
  show ?thesis
  proof (cases "v = []")
    case True
    with t show ?thesis by (simp add: py_strip_Nil)
  next
    case False
    then have hv: "\<not> is_space (hd v)" unfolding v_def by (rule hd_dropWhile)
    from False have ru: "rev u \<noteq> []" unfolding v_def by auto
    then have un: "u \<noteq> []" by simp
    then have hu: "\<not> is_space (hd u)" unfolding u_def by (rule hd_dropWhile)
    from False have "last v = last (rev u)" unfolding v_def by (rule last_dropWhile_keep)
    with un have lv: "last v = hd u" by (simp add: last_rev)
    from False have "hd (rev v) = last v" by (simp add: hd_rev)
    with lv hu have "\<not> is_space (hd (rev v))" by simp
    then have d1: "dropWhile is_space (rev v) = rev v"
      by (simp add: dropWhile_eq_self_iff)
    from hv have d2: "dropWhile is_space v = v"
      by (simp add: dropWhile_eq_self_iff)
    have "py_strip (rev v) = rev v"
      by (simp add: py_strip_def d1 d2)
    with t show ?thesis by simp
  qed
qed

lemma parse_list_items_trimmed: "trimmed_items (parse_list_items t)"
  by (auto simp: trimmed_items_def parse_list_items_def list_all_iff py_strip_idem)

lemma parse_line_trimmed:
  assumes "trimmed_items (characters a)" "trimmed_items (cultural_refs a)"
  shows "trimmed_items (characters (parse_line a l))"
    and "trimmed_items (cultural_refs (parse_line a l))"
  using assms by (simp_all add: parse_line_def Let_def parse_list_items_trimmed)

lemma foldl_parse_line_trimmed:
  assumes "trimmed_items (characters a)" "trimmed_items (cultural_refs a)"
  shows "trimmed_items (characters (foldl parse_line a ls))
         \<and> trimmed_items (cultural_refs (foldl parse_line a ls))"
  using assms by (induction ls arbitrary: a) (simp_all add: parse_line_trimmed)

text \<open>
  Claim C10. Whatever the reply, every string in the returned \<open>characters\<close> and
  \<open>cultural_refs\<close> is non-empty and equal to its own trimmed form.
\<close>

theorem parsed_lists_trimmed:
  "trimmed_items (characters (parse_llm_response r))
   \<and> trimmed_items (cultural_refs (parse_llm_response r))"
proof (cases r)
  case None
  then show ?thesis
    by (simp add: parse_llm_response_def parse_body_def sentinel_def trimmed_items_def)
next
  case (Some t)
  have "trimmed_items (characters initial_analysis)" "trimmed_items (cultural_refs initial_analysis)"
    by (simp_all add: initial_analysis_def trimmed_items_def)
  from foldl_parse_line_trimmed[OF this] Some show ?thesis
    by (simp add: parse_llm_response_def parse_body_def)
qed

theorem parsed_lists_trimmed_witness:
  "characters (parse_llm_response (Some ''Characters: [ Jeff ,, Paula , ]'')) = [''Jeff'', ''Paula'']
   \<and> trimmed_items [''Jeff'', ''Paula'']"
proof -
  have e: "characters (parse_llm_response (Some ''Characters: [ Jeff ,, Paula , ]'')) = [''Jeff'', ''Paula'']"
    by (simp add: reply_eval)
  from parsed_lists_trimmed [of "Some ''Characters: [ Jeff ,, Paula , ]''"] e
  show ?thesis by simp
qed

section \<open>The subtitle parser\<close>

lemmas srt_eval = parse_srt_def parse_block_def timestamp_pattern_def py_int_def
  py_strip_def is_space_def is_int_space_def startswith_def is_digit_def nat_of_digits_def digit_val_def

lemma parse_block_short:
  "length (py_split [NL] (py_strip block)) < 3 \<Longrightarrow> parse_block block = Inr None"
  by (simp add: parse_block_def)

lemma parse_block_timestamps:
  "length (find_timestamps (py_split [NL] (py_strip block) ! 1)) \<noteq> 2
     \<Longrightarrow> parse_block block = Inr None"
  by (simp add: parse_block_def Let_def)

lemma parse_blocks_skip:
  "parse_block block = Inr None \<Longrightarrow> parse_blocks (block # blocks) acc = parse_blocks blocks acc"
  by simp

lemma parse_blocks_raise:
  "parse_block block = Inl e \<Longrightarrow> parse_blocks (block # blocks) acc = Inl e"
  by simp

text \<open>
  Claim C4. A block with fewer than three lines, or without exactly two timestamps in
  its second line, is skipped and the blocks after it are still read (the lemmas
  above). A block that passes both checks and whose first line is no integer is not
  skipped: \<open>int(lines[0])\<close> raises \<open>ValueError\<close> and the whole parse ends, as on the
  first file below; the second file shows such a block skipped only because its
  second line holds no timestamps.
\<close>

theorem parse_srt_index_raises:
  "parse_srt (''1'' @ [NL] @ ''00:00:01,000 --> 00:00:02,000'' @ [NL] @ ''Hello'' @ [NL, NL]
              @ ''x'' @ [NL] @ ''00:00:03,000 --> 00:00:04,000'' @ [NL] @ ''Bye'' @ [NL, NL]
              @ ''3'' @ [NL] @ ''00:00:05,000 --> 00:00:06,000'' @ [NL] @ ''End'')
   = Inl (ValueError ''invalid literal for int() with base 10'')
   \<and> parse_srt (''1'' @ [NL] @ ''00:00:01,000 --> 00:00:02,000'' @ [NL] @ ''Hello'' @ [NL, NL]
              @ ''x'' @ [NL] @ ''no timestamps'' @ [NL] @ ''Bye'' @ [NL, NL]
              @ ''3'' @ [NL] @ ''00:00:05,000 --> 00:00:06,000'' @ [NL] @ ''End'')
   = Inr [\<lparr>u_index = 1, u_start = ''00:00:01,000'', u_end = ''00:00:02,000'', u_text = ''Hello''\<rparr>,
          \<lparr>u_index = 3, u_start = ''00:00:05,000'', u_end = ''00:00:06,000'', u_text = ''End''\<rparr>]"
  by (simp add: srt_eval)

section \<open>The fallback context\<close>

lemma load_movie_context_missing: "load_movie_context (\<lambda>f. Missing) = []"
  by (simp add: load_movie_context_def load_section_def section_order_def List.map_filter_simps)

text \<open>
  Claim C6. With no section file the context is the fixed fallback text, computed
  without any call that can raise. Its three lines are the plot paragraph, the word
  \<open>influence_intro\<close> and the character list: the reception note is not part of it.
\<close>

theorem system_instruction_fallback:
  "system_instruction (\<lambda>f. Missing)
     = movie_intro @ [NL] @ ''influence_intro'' @ [NL] @ main_character_intro
   \<and> system_instruction (\<lambda>f. Missing)
     \<noteq> movie_intro @ [NL] @ influence_intro @ [NL] @ main_character_intro"
proof -
  have "''influence_intro'' @ [NL] @ main_character_intro
        \<noteq> influence_intro @ [NL] @ main_character_intro"
    by (simp add: influence_intro_def)
  then show ?thesis
    by (simp add: system_instruction_def load_movie_context_missing)
qed


section \<open>The annotator and the run\<close>

lemma analyze_unsupported:
  "\<not> startswith model ''gemini''
     \<Longrightarrow> analyze_scene_with_llm cl si key txt model = Inl (ValueError (''Unsupported model: '' @ model))"
  by (simp add: analyze_scene_with_llm_def)

lemma analyze_no_credential:
  "startswith model ''gemini'' \<Longrightarrow> no_credential key
     \<Longrightarrow> analyze_scene_with_llm cl si key txt model
         = Inl (ValueError ''GEMINI_API_KEY not found in environment variables'')"
  by (simp add: analyze_scene_with_llm_def no_credential_def split: option.splits)

lemma analyze_config_error:
  assumes "config_error key model"
  shows "\<exists>msg. analyze_scene_with_llm cl si key txt model = Inl (ValueError msg)"
proof (cases "startswith model ''gemini''")
  case True
  with assms have "no_credential key" by (simp add: config_error_def)
  from analyze_no_credential[OF True this] show ?thesis by blast
next
  case False
  from analyze_unsupported[OF this] show ?thesis by blast
qed

lemma py_index_ends:
  assumes "xs \<noteq> []"
  shows "py_index xs 0 = Inr (hd xs)" and "py_index xs (- 1) = Inr (last xs)"
proof -
  from assms show "py_index xs 0 = Inr (hd xs)"
    by (simp add: py_index_def hd_conv_nth)
  from assms have "Suc 0 \<le> length xs" by (cases xs) simp_all
  moreover have "nat (int (length xs) - 1) = length xs - 1" by simp
  ultimately show "py_index xs (- 1) = Inr (last xs)"
    using assms by (simp add: py_index_def last_conv_nth)
qed

lemma py_index_empty: "py_index [] i = Inl IndexError"
  by (simp add: py_index_def)

lemma analyze_scene_config_error:
  assumes "config_error key model" "scene \<noteq> []"
  shows "\<exists>msg. analyze_scene cl si key model scene = Inl (ValueError msg)"
proof -
  from analyze_config_error[OF assms(1)] obtain msg where
    "analyze_scene_with_llm cl si key (py_join '' '' (map u_text scene)) model = Inl (ValueError msg)"
    by blast
  with py_index_ends[OF assms(2)] show ?thesis
    by (simp add: analyze_scene_def)
qed

text \<open>
  Claim C7. \<open>analyze_scene_with_llm\<close> raises \<open>ValueError\<close>, and returns no annotation,
  when the model's name does not start with \<open>gemini\<close>, and when it does but no
  credential is configured. \<open>main\<close> catches nothing: with at least one scene to
  annotate, the run ends with that error.
\<close>

theorem configuration_errors_abort:
  "(\<not> startswith model ''gemini''
      \<longrightarrow> analyze_scene_with_llm cl si key txt model
          = Inl (ValueError (''Unsupported model: '' @ model)))
   \<and> (startswith model ''gemini'' \<and> no_credential key
      \<longrightarrow> analyze_scene_with_llm cl si key txt model
          = Inl (ValueError ''GEMINI_API_KEY not found in environment variables''))
   \<and> (config_error key model \<and> parse_srt content = Inr subs
        \<and> group_into_scenes subs 4 = Inr scenes \<and> scenes \<noteq> []
      \<longrightarrow> (\<exists>msg. main_results cl si key model content = Inl (ValueError msg)))"
proof (intro conjI impI)
  assume "\<not> startswith model ''gemini''"
  then show "analyze_scene_with_llm cl si key txt model
          = Inl (ValueError (''Unsupported model: '' @ model))"
    by (rule analyze_unsupported)
next
  assume "startswith model ''gemini'' \<and> no_credential key"
  then show "analyze_scene_with_llm cl si key txt model
          = Inl (ValueError ''GEMINI_API_KEY not found in environment variables'')"
    by (simp add: analyze_no_credential)
next
  assume a: "config_error key model \<and> parse_srt content = Inr subs
        \<and> group_into_scenes subs 4 = Inr scenes \<and> scenes \<noteq> []"
  then obtain scene rest where sc: "scenes = scene # rest" by (cases scenes) auto
  from a group_into_scenes_concat[of subs 4 scenes] sc have "scene \<noteq> []" by simp
  with a analyze_scene_config_error obtain msg where
    "analyze_scene cl si key model scene = Inl (ValueError msg)" by blast
  with a sc have "main_results cl si key model content = Inl (ValueError msg)"
    by (simp add: main_results_def)
  then show "\<exists>msg. main_results cl si key model content = Inl (ValueError msg)" by blast
qed

lemmas run_eval = main_results_def analyze_scene_def analyze_scene_with_llm_def
  srt_eval segment_eval reply_eval

theorem configuration_errors_abort_witness:
  "analyze_scene_with_llm \<lparr>caches_create = (\<lambda>k m s. Inr ''cache''), generate_content = (\<lambda>k m p c. Inr (Some ''Summary: A greeting.''))\<rparr> [] (Some ''k'') ''Hello'' ''openai:gpt-4o''
     = Inl (ValueError ''Unsupported model: openai:gpt-4o'')
   \<and> analyze_scene_with_llm \<lparr>caches_create = (\<lambda>k m s. Inr ''cache''), generate_content = (\<lambda>k m p c. Inr (Some ''Summary: A greeting.''))\<rparr> [] None ''Hello'' ''gemini-2.0-flash''
     = Inl (ValueError ''GEMINI_API_KEY not found in environment variables'')
   \<and> (\<exists>msg. main_results \<lparr>caches_create = (\<lambda>k m s. Inr ''cache''), generate_content = (\<lambda>k m p c. Inr (Some ''Summary: A greeting.''))\<rparr> [] None ''gemini-2.0-flash'' (''1'' @ [NL] @ ''00:00:01,000 --> 00:00:02,000'' @ [NL] @ ''Hello'') = Inl (ValueError msg))
   \<and> (\<exists>msg. main_results \<lparr>caches_create = (\<lambda>k m s. Inr ''cache''), generate_content = (\<lambda>k m p c. Inr (Some ''Summary: A greeting.''))\<rparr> [] (Some ''k'') ''openai:gpt-4o'' (''1'' @ [NL] @ ''00:00:01,000 --> 00:00:02,000'' @ [NL] @ ''Hello'') = Inl (ValueError msg))"
proof -
  have m1: "\<not> startswith ''openai:gpt-4o'' ''gemini''"
    and m2: "startswith ''gemini-2.0-flash'' ''gemini''"
    by (simp_all add: startswith_def)
  have n: "no_credential None" by (simp add: no_credential_def)
  have c1: "config_error None ''gemini-2.0-flash''"
    and c2: "config_error (Some ''k'') ''openai:gpt-4o''"
    by (simp_all add: config_error_def no_credential_def startswith_def)
  have p: "parse_srt (''1'' @ [NL] @ ''00:00:01,000 --> 00:00:02,000'' @ [NL] @ ''Hello'') = Inr [\<lparr>u_index = 1, u_start = ''00:00:01,000'', u_end = ''00:00:02,000'', u_text = ''Hello''\<rparr>]"
    by (simp add: srt_eval)
  have g: "group_into_scenes [\<lparr>u_index = 1, u_start = ''00:00:01,000'', u_end = ''00:00:02,000'', u_text = ''Hello''\<rparr>] 4 = Inr [[\<lparr>u_index = 1, u_start = ''00:00:01,000'', u_end = ''00:00:02,000'', u_text = ''Hello''\<rparr>]]"
    by (simp add: segment_eval)
  from configuration_errors_abort
         [of "''openai:gpt-4o''" "\<lparr>caches_create = (\<lambda>k m s. Inr ''cache''), generate_content = (\<lambda>k m p c. Inr (Some ''Summary: A greeting.''))\<rparr>" "[]" "Some ''k''" "''Hello''" "(''1'' @ [NL] @ ''00:00:01,000 --> 00:00:02,000'' @ [NL] @ ''Hello'')" "[\<lparr>u_index = 1, u_start = ''00:00:01,000'', u_end = ''00:00:02,000'', u_text = ''Hello''\<rparr>]" "[[\<lparr>u_index = 1, u_start = ''00:00:01,000'', u_end = ''00:00:02,000'', u_text = ''Hello''\<rparr>]]"]
       configuration_errors_abort
         [of "''gemini-2.0-flash''" "\<lparr>caches_create = (\<lambda>k m s. Inr ''cache''), generate_content = (\<lambda>k m p c. Inr (Some ''Summary: A greeting.''))\<rparr>" "[]" None "''Hello''" "(''1'' @ [NL] @ ''00:00:01,000 --> 00:00:02,000'' @ [NL] @ ''Hello'')" "[\<lparr>u_index = 1, u_start = ''00:00:01,000'', u_end = ''00:00:02,000'', u_text = ''Hello''\<rparr>]" "[[\<lparr>u_index = 1, u_start = ''00:00:01,000'', u_end = ''00:00:02,000'', u_text = ''Hello''\<rparr>]]"]
       m1 m2 n c1 c2 p g
  show ?thesis by simp
qed

lemma analyze_scene_result:
  assumes "analyze_scene cl si key model scene = Inr r"
  shows "result_of cl si key model scene r"
proof (cases "scene = []")
  case True
  with assms show ?thesis by (simp add: analyze_scene_def py_index_empty)
next
  case False
  from py_index_ends[OF False] assms False show ?thesis
    by (auto simp: analyze_scene_def result_of_def split: sum.splits)
qed

lemma analyze_scenes_results:
  assumes "analyze_scenes cl si key model scenes acc = Inr results"
  shows "\<exists>rs. results = acc @ rs \<and> list_all2 (result_of cl si key model) scenes rs"
  using assms
proof (induction scenes arbitrary: acc)
  case Nil
  then show ?case by simp
next
  case (Cons scene scenes)
  from Cons.prems obtain r where
    r: "analyze_scene cl si key model scene = Inr r"
    and lp: "analyze_scenes cl si key model scenes (acc @ [r]) = Inr results"
    by (auto split: sum.splits)
  from Cons.IH[OF lp] obtain rs where "results = (acc @ [r]) @ rs"
    "list_all2 (result_of cl si key model) scenes rs" by blast
  with analyze_scene_result[OF r] have "results = acc @ (r # rs)"
    "list_all2 (result_of cl si key model) (scene # scenes) (r # rs)" by simp_all
  then show ?case by blast
qed

lemma analyze_answers:
  assumes "startswith model ''gemini''" "\<not> no_credential key" "service_answers cl"
  shows "\<exists>a. analyze_scene_with_llm cl si key txt model = Inr a"
proof -
  from assms(2) obtain api_key where key: "key = Some api_key" "api_key \<noteq> []"
    by (cases key) (auto simp: no_credential_def)
  from assms(3) obtain c where c: "caches_create cl api_key model si = Inr c"
    unfolding service_answers_def by blast
  from assms(3) obtain t where "generate_content cl api_key model (prompt_for txt) c = Inr t"
    unfolding service_answers_def by blast
  with assms(1) key c show ?thesis
    by (simp add: analyze_scene_with_llm_def)
qed

lemma analyze_scene_answers:
  assumes "startswith model ''gemini''" "\<not> no_credential key" "service_answers cl"
    and "scene \<noteq> []"
  shows "\<exists>r. analyze_scene cl si key model scene = Inr r"
proof -
  from analyze_answers[OF assms(1-3)] obtain a where
    "analyze_scene_with_llm cl si key (py_join '' '' (map u_text scene)) model = Inr a"
    by blast
  with py_index_ends[OF assms(4)] show ?thesis
    by (simp add: analyze_scene_def)
qed

lemma analyze_scenes_answers:
  assumes "startswith model ''gemini''" "\<not> no_credential key" "service_answers cl"
    and "list_all (\<lambda>s. s \<noteq> []) scenes"
  shows "\<exists>results. analyze_scenes cl si key model scenes acc = Inr results"
  using assms(4)
proof (induction scenes arbitrary: acc)
  case Nil
  show ?case by simp
next
  case (Cons scene scenes)
  then have "scene \<noteq> []" by simp
  from analyze_scene_answers[OF assms(1-3) this] obtain r where
    "analyze_scene cl si key model scene = Inr r" by blast
  moreover from Cons have "\<exists>results. analyze_scenes cl si key model scenes (acc @ [r]) = Inr results"
    by simp
  ultimately show ?case by simp
qed

text \<open>
  Claim C8. The list that a successful run serializes has one element per scene, in
  the order of the scenes; each element's \<open>start\<close> is the start of the scene's first
  entry, its \<open>end\<close> the end of the last one, its \<open>transcript\<close> the texts joined by single
  spaces, and its \<open>summary\<close>, \<open>characters\<close>, \<open>mood\<close> and \<open>cultural_refs\<close> those of the
  scene's annotation. The run succeeds, with such a list, whenever the file parses,
  the segmenter returns, the model is a supported one, a credential is set and the
  service answers.
\<close>

theorem main_results_per_scene:
  "(main_results cl si key model content = Inr results
     \<longrightarrow> (\<exists>subs scenes. parse_srt content = Inr subs
            \<and> group_into_scenes subs 4 = Inr scenes
            \<and> list_all2 (result_of cl si key model) scenes results))
   \<and> (parse_srt content = Inr subs \<and> group_into_scenes subs 4 = Inr scenes
        \<and> startswith model ''gemini'' \<and> \<not> no_credential key \<and> service_answers cl
     \<longrightarrow> (\<exists>results. main_results cl si key model content = Inr results
            \<and> list_all2 (result_of cl si key model) scenes results))"
proof (intro conjI impI)
  assume m: "main_results cl si key model content = Inr results"
  then obtain subs scenes where
    p: "parse_srt content = Inr subs" and g: "group_into_scenes subs 4 = Inr scenes"
    and a: "analyze_scenes cl si key model scenes [] = Inr results"
    by (auto simp: main_results_def split: sum.splits)
  from analyze_scenes_results[OF a] have "list_all2 (result_of cl si key model) scenes results"
    by simp
  with p g show "\<exists>subs scenes. parse_srt content = Inr subs
            \<and> group_into_scenes subs 4 = Inr scenes
            \<and> list_all2 (result_of cl si key model) scenes results"
    by blast
next
  assume a: "parse_srt content = Inr subs \<and> group_into_scenes subs 4 = Inr scenes
        \<and> startswith model ''gemini'' \<and> \<not> no_credential key \<and> service_answers cl"
  then have ne: "list_all (\<lambda>s. s \<noteq> []) scenes"
    using group_into_scenes_concat[of subs 4 scenes] by simp
  from a analyze_scenes_answers[OF _ _ _ ne, of model key cl si "[]"] obtain results where
    r: "analyze_scenes cl si key model scenes [] = Inr results" by blast
  from analyze_scenes_results[OF r] have "list_all2 (result_of cl si key model) scenes results"
    by simp
  moreover from a r have "main_results cl si key model content = Inr results"
    by (simp add: main_results_def)
  ultimately show "\<exists>results. main_results cl si key model content = Inr results
            \<and> list_all2 (result_of cl si key model) scenes results"
    by blast
qed

theorem main_results_per_scene_witness:
  "service_answers \<lparr>caches_create = (\<lambda>k m s. Inr ''cache''), generate_content = (\<lambda>k m p c. Inr (Some (''Summary: A greeting.'' @ [NL] @ ''Characters: [Jeff, Paula]'' @ [NL] @ ''Mood: calm'')))\<rparr>
   \<and> parse_srt (''1'' @ [NL] @ ''00:00:01,000 --> 00:00:02,000'' @ [NL] @ ''Hello'' @ [NL, NL] @ ''2'' @ [NL] @ ''00:00:03,000 --> 00:00:04,000'' @ [NL] @ ''over'' @ [NL] @ ''there'' @ [NL, NL] @ ''3'' @ [NL] @ ''00:00:14,000 --> 00:00:15,000'' @ [NL] @ ''Bye'') = Inr [\<lparr>u_index = 1, u_start = ''00:00:01,000'', u_end = ''00:00:02,000'', u_text = ''Hello''\<rparr>, \<lparr>u_index = 2, u_start = ''00:00:03,000'', u_end = ''00:00:04,000'', u_text = ''over there''\<rparr>, \<lparr>u_index = 3, u_start = ''00:00:14,000'', u_end = ''00:00:15,000'', u_text = ''Bye''\<rparr>]
   \<and> group_into_scenes [\<lparr>u_index = 1, u_start = ''00:00:01,000'', u_end = ''00:00:02,000'', u_text = ''Hello''\<rparr>, \<lparr>u_index = 2, u_start = ''00:00:03,000'', u_end = ''00:00:04,000'', u_text = ''over there''\<rparr>, \<lparr>u_index = 3, u_start = ''00:00:14,000'', u_end = ''00:00:15,000'', u_text = ''Bye''\<rparr>] 4 = Inr [[\<lparr>u_index = 1, u_start = ''00:00:01,000'', u_end = ''00:00:02,000'', u_text = ''Hello''\<rparr>, \<lparr>u_index = 2, u_start = ''00:00:03,000'', u_end = ''00:00:04,000'', u_text = ''over there''\<rparr>], [\<lparr>u_index = 3, u_start = ''00:00:14,000'', u_end = ''00:00:15,000'', u_text = ''Bye''\<rparr>]]
   \<and> main_results \<lparr>caches_create = (\<lambda>k m s. Inr ''cache''), generate_content = (\<lambda>k m p c. Inr (Some (''Summary: A greeting.'' @ [NL] @ ''Characters: [Jeff, Paula]'' @ [NL] @ ''Mood: calm'')))\<rparr> ''context'' (Some ''k'') ''gemini-2.0-flash'' (''1'' @ [NL] @ ''00:00:01,000 --> 00:00:02,000'' @ [NL] @ ''Hello'' @ [NL, NL] @ ''2'' @ [NL] @ ''00:00:03,000 --> 00:00:04,000'' @ [NL] @ ''over'' @ [NL] @ ''there'' @ [NL, NL] @ ''3'' @ [NL] @ ''00:00:14,000 --> 00:00:15,000'' @ [NL] @ ''Bye'')
     = Inr [\<lparr>res_start = ''00:00:01,000'', res_end = ''00:00:04,000'', res_transcript = ''Hello over there'', res_summary = ''A greeting.'', res_characters = [''Jeff'', ''Paula''], res_mood = ''calm'', res_cultural_refs = []\<rparr>,
            \<lparr>res_start = ''00:00:14,000'', res_end = ''00:00:15,000'', res_transcript = ''Bye'', res_summary = ''A greeting.'', res_characters = [''Jeff'', ''Paula''], res_mood = ''calm'', res_cultural_refs = []\<rparr>]
   \<and> list_all2 (result_of \<lparr>caches_create = (\<lambda>k m s. Inr ''cache''), generate_content = (\<lambda>k m p c. Inr (Some (''Summary: A greeting.'' @ [NL] @ ''Characters: [Jeff, Paula]'' @ [NL] @ ''Mood: calm'')))\<rparr> ''context'' (Some ''k'') ''gemini-2.0-flash'')
        [[\<lparr>u_index = 1, u_start = ''00:00:01,000'', u_end = ''00:00:02,000'', u_text = ''Hello''\<rparr>, \<lparr>u_index = 2, u_start = ''00:00:03,000'', u_end = ''00:00:04,000'', u_text = ''over there''\<rparr>], [\<lparr>u_index = 3, u_start = ''00:00:14,000'', u_end = ''00:00:15,000'', u_text = ''Bye''\<rparr>]]
        [\<lparr>res_start = ''00:00:01,000'', res_end = ''00:00:04,000'', res_transcript = ''Hello over there'', res_summary = ''A greeting.'', res_characters = [''Jeff'', ''Paula''], res_mood = ''calm'', res_cultural_refs = []\<rparr>,
         \<lparr>res_start = ''00:00:14,000'', res_end = ''00:00:15,000'', res_transcript = ''Bye'', res_summary = ''A greeting.'', res_characters = [''Jeff'', ''Paula''], res_mood = ''calm'', res_cultural_refs = []\<rparr>]"
proof -
  have s: "service_answers \<lparr>caches_create = (\<lambda>k m s. Inr ''cache''), generate_content = (\<lambda>k m p c. Inr (Some (''Summary: A greeting.'' @ [NL] @ ''Characters: [Jeff, Paula]'' @ [NL] @ ''Mood: calm'')))\<rparr>"
    by (simp add: service_answers_def)
  have p: "parse_srt (''1'' @ [NL] @ ''00:00:01,000 --> 00:00:02,000'' @ [NL] @ ''Hello'' @ [NL, NL] @ ''2'' @ [NL] @ ''00:00:03,000 --> 00:00:04,000'' @ [NL] @ ''over'' @ [NL] @ ''there'' @ [NL, NL] @ ''3'' @ [NL] @ ''00:00:14,000 --> 00:00:15,000'' @ [NL] @ ''Bye'') = Inr [\<lparr>u_index = 1, u_start = ''00:00:01,000'', u_end = ''00:00:02,000'', u_text = ''Hello''\<rparr>, \<lparr>u_index = 2, u_start = ''00:00:03,000'', u_end = ''00:00:04,000'', u_text = ''over there''\<rparr>, \<lparr>u_index = 3, u_start = ''00:00:14,000'', u_end = ''00:00:15,000'', u_text = ''Bye''\<rparr>]"
    by (simp add: srt_eval)
  have g: "group_into_scenes [\<lparr>u_index = 1, u_start = ''00:00:01,000'', u_end = ''00:00:02,000'', u_text = ''Hello''\<rparr>, \<lparr>u_index = 2, u_start = ''00:00:03,000'', u_end = ''00:00:04,000'', u_text = ''over there''\<rparr>, \<lparr>u_index = 3, u_start = ''00:00:14,000'', u_end = ''00:00:15,000'', u_text = ''Bye''\<rparr>] 4 = Inr [[\<lparr>u_index = 1, u_start = ''00:00:01,000'', u_end = ''00:00:02,000'', u_text = ''Hello''\<rparr>, \<lparr>u_index = 2, u_start = ''00:00:03,000'', u_end = ''00:00:04,000'', u_text = ''over there''\<rparr>], [\<lparr>u_index = 3, u_start = ''00:00:14,000'', u_end = ''00:00:15,000'', u_text = ''Bye''\<rparr>]]"
    by (simp add: segment_eval)
  have e: "main_results \<lparr>caches_create = (\<lambda>k m s. Inr ''cache''), generate_content = (\<lambda>k m p c. Inr (Some (''Summary: A greeting.'' @ [NL] @ ''Characters: [Jeff, Paula]'' @ [NL] @ ''Mood: calm'')))\<rparr> ''context'' (Some ''k'') ''gemini-2.0-flash'' (''1'' @ [NL] @ ''00:00:01,000 --> 00:00:02,000'' @ [NL] @ ''Hello'' @ [NL, NL] @ ''2'' @ [NL] @ ''00:00:03,000 --> 00:00:04,000'' @ [NL] @ ''over'' @ [NL] @ ''there'' @ [NL, NL] @ ''3'' @ [NL] @ ''00:00:14,000 --> 00:00:15,000'' @ [NL] @ ''Bye'')
     = Inr [\<lparr>res_start = ''00:00:01,000'', res_end = ''00:00:04,000'', res_transcript = ''Hello over there'', res_summary = ''A greeting.'', res_characters = [''Jeff'', ''Paula''], res_mood = ''calm'', res_cultural_refs = []\<rparr>,
            \<lparr>res_start = ''00:00:14,000'', res_end = ''00:00:15,000'', res_transcript = ''Bye'', res_summary = ''A greeting.'', res_characters = [''Jeff'', ''Paula''], res_mood = ''calm'', res_cultural_refs = []\<rparr>]"
    by (simp add: run_eval)
  have c: "startswith ''gemini-2.0-flash'' ''gemini''" "\<not> no_credential (Some ''k'')"
    by (simp_all add: startswith_def no_credential_def)
  from main_results_per_scene
         [of "\<lparr>caches_create = (\<lambda>k m s. Inr ''cache''), generate_content = (\<lambda>k m p c. Inr (Some (''Summary: A greeting.'' @ [NL] @ ''Characters: [Jeff, Paula]'' @ [NL] @ ''Mood: calm'')))\<rparr>" "''context''" "Some ''k''" "''gemini-2.0-flash''" "(''1'' @ [NL] @ ''00:00:01,000 --> 00:00:02,000'' @ [NL] @ ''Hello'' @ [NL, NL] @ ''2'' @ [NL] @ ''00:00:03,000 --> 00:00:04,000'' @ [NL] @ ''over'' @ [NL] @ ''there'' @ [NL, NL] @ ''3'' @ [NL] @ ''00:00:14,000 --> 00:00:15,000'' @ [NL] @ ''Bye'')"
             "[\<lparr>res_start = ''00:00:01,000'', res_end = ''00:00:04,000'', res_transcript = ''Hello over there'', res_summary = ''A greeting.'', res_characters = [''Jeff'', ''Paula''], res_mood = ''calm'', res_cultural_refs = []\<rparr>,
               \<lparr>res_start = ''00:00:14,000'', res_end = ''00:00:15,000'', res_transcript = ''Bye'', res_summary = ''A greeting.'', res_characters = [''Jeff'', ''Paula''], res_mood = ''calm'', res_cultural_refs = []\<rparr>]" "[\<lparr>u_index = 1, u_start = ''00:00:01,000'', u_end = ''00:00:02,000'', u_text = ''Hello''\<rparr>, \<lparr>u_index = 2, u_start = ''00:00:03,000'', u_end = ''00:00:04,000'', u_text = ''over there''\<rparr>, \<lparr>u_index = 3, u_start = ''00:00:14,000'', u_end = ''00:00:15,000'', u_text = ''Bye''\<rparr>]" "[[\<lparr>u_index = 1, u_start = ''00:00:01,000'', u_end = ''00:00:02,000'', u_text = ''Hello''\<rparr>, \<lparr>u_index = 2, u_start = ''00:00:03,000'', u_end = ''00:00:04,000'', u_text = ''over there''\<rparr>], [\<lparr>u_index = 3, u_start = ''00:00:14,000'', u_end = ''00:00:15,000'', u_text = ''Bye''\<rparr>]]"] s p g e c
  show ?thesis by simp
qed

end
